theory Spec2Isabelle
  imports Main
begin

section \<open>Values of the relay\<close>

text \<open>
  The request fields, the cached token and the upstream's string fields are JavaScript
  strings that may be absent: \<open>None\<close> stands for \<open>undefined\<close>/\<open>null\<close>. A string is a
  list of characters, and a character is a code unit below 256, that is one of U+0000 to
  U+00FF. The conditions of the source test truthiness: an absent value and the empty
  string are falsy.
\<close>

definition truthy :: "string option \<Rightarrow> bool" where
  "truthy v = (case v of None \<Rightarrow> False | Some s \<Rightarrow> s \<noteq> [])"

text \<open>The regular expression class \<open>\d\<close>, whose complement \<open>\D\<close> the handler deletes.\<close>

definition isDigit :: "char \<Rightarrow> bool" where
  "isDigit c = (c \<in> set ''0123456789'')"

text \<open>\<open>s.replace(/\D/g, '')\<close>: every character that is not a digit is removed.\<close>

definition replace_nondigits :: "string \<Rightarrow> string" where
  "replace_nondigits s = filter isDigit s"

text \<open>
  \<open>s.slice(start)\<close>: a negative start counts from the end and is clamped at the
  beginning of the string, a positive one is clamped at its end.
\<close>

definition slice :: "int \<Rightarrow> string \<Rightarrow> string" where
  "slice start s =
     (let len = int (length s);
          from = (if start < 0 then max (len + start) 0 else min start len)
      in drop (nat from) s)"

text \<open>
  \<open>s.toLowerCase()\<close> on code units below 256: the Unicode lower-case mapping changes the
  letters \<open>A\<close> to \<open>Z\<close> and the capital letters U+00C0 to U+00DE other than the
  multiplication sign U+00D7; each becomes the letter 32 places further. Every other
  character below 256 is its own lower case, and no rule that looks at the neighbours of a
  character applies to them.
\<close>

definition upperLetters :: string where
  "upperLetters =
     ''ABCDEFGHIJKLMNOPQRSTUVWXYZ'' @
       [CHR 0xC0, CHR 0xC1, CHR 0xC2, CHR 0xC3, CHR 0xC4, CHR 0xC5, CHR 0xC6, CHR 0xC7,
        CHR 0xC8, CHR 0xC9, CHR 0xCA, CHR 0xCB, CHR 0xCC, CHR 0xCD, CHR 0xCE, CHR 0xCF,
        CHR 0xD0, CHR 0xD1, CHR 0xD2, CHR 0xD3, CHR 0xD4, CHR 0xD5, CHR 0xD6, CHR 0xD8,
        CHR 0xD9, CHR 0xDA, CHR 0xDB, CHR 0xDC, CHR 0xDD, CHR 0xDE]"

definition lowerLetters :: string where
  "lowerLetters =
     ''abcdefghijklmnopqrstuvwxyz'' @
       [CHR 0xE0, CHR 0xE1, CHR 0xE2, CHR 0xE3, CHR 0xE4, CHR 0xE5, CHR 0xE6, CHR 0xE7,
        CHR 0xE8, CHR 0xE9, CHR 0xEA, CHR 0xEB, CHR 0xEC, CHR 0xED, CHR 0xEE, CHR 0xEF,
        CHR 0xF0, CHR 0xF1, CHR 0xF2, CHR 0xF3, CHR 0xF4, CHR 0xF5, CHR 0xF6, CHR 0xF8,
        CHR 0xF9, CHR 0xFA, CHR 0xFB, CHR 0xFC, CHR 0xFD, CHR 0xFE]"

definition lowerChar :: "char \<Rightarrow> char" where
  "lowerChar c = (case map_of (zip upperLetters lowerLetters) c of None \<Rightarrow> c | Some l \<Rightarrow> l)"

definition toLowerCase :: "string \<Rightarrow> string" where
  "toLowerCase s = map lowerChar s"

text \<open>Line 89: \<open>client_phone?.replace(/\D/g, '').slice(-10)\<close>.\<close>

definition normalizedPhone :: "string option \<Rightarrow> string option" where
  "normalizedPhone client_phone =
     map_option (\<lambda>p. slice (- 10) (replace_nondigits p)) client_phone"

text \<open>Line 90: \<open>client_email?.toLowerCase()\<close>.\<close>

definition normalizedEmail :: "string option \<Rightarrow> string option" where
  "normalizedEmail client_email = map_option toLowerCase client_email"

section \<open>Configuration\<close>

definition API_URL :: string where
  "API_URL = ''https://na1pub.meevo.com/publicapi/v1''"

definition TENANT_ID :: string where
  "TENANT_ID = ''200507''"

definition LOCATION_ID :: string where
  "LOCATION_ID = ''201664''"

section \<open>Data exchanged with the upstream platform\<close>

record client =
  clientId :: string
  firstName :: string
  lastName :: string
  primaryPhoneNumber :: "string option"
  emailAddress :: "string option"

text \<open>
  One record serves for an entry of the appointment listing and for the object returned by
  the running-late read: the earlier handler uses either as its \<open>appointmentDetails\<close>.
  \<open>aptClientId\<close> is the field \<open>clientId\<close> of an appointment.
\<close>

record appointment =
  appointmentServiceId :: string
  startTime :: string
  isCancelled :: bool
  serviceId :: string
  aptClientId :: string
  employeeId :: string
  concurrencyCheckDigits :: int

record lookupBody =
  PhoneNumbers :: "string list option"
  EmailIds :: "string list option"

record updateBody =
  ServiceId :: string
  ClientId :: string
  EmployeeId :: string
  ConcurrencyCheckDigits :: int
  StartTime :: string
  IsRunningLate :: bool

datatype payload = LookupData lookupBody | UpdateData updateBody

text \<open>The request handed to \<open>axios\<close>; the content type header is constant.\<close>

record axiosConfig =
  httpMethod :: string
  url :: string
  authorization :: string
  httpData :: "payload option"

record tokenResponse =
  access_token :: string
  expires_in :: int

text \<open>
  A call that throws carries \<open>error.response?.data?.error?.message\<close>, absent when the
  error has no response or the body has no such field.
\<close>

type_synonym err = "string option"

text \<open>
  The \<open>data\<close> field of each body the upstream returns, absent when the body is empty or
  has no such field; the body of the write is never read.
\<close>

datatype reply =
    ClientsReply "client list option"
  | ServicesReply "appointment list option"
  | DetailsReply "appointment option"
  | UpdateReply

text \<open>The upstream calls of a run in order, each with what it returned or threw.\<close>

datatype event =
    TokenPost "err + tokenResponse"
  | ApiCall axiosConfig "err + reply"

text \<open>
  The world outside the relay: the clock (\<open>Date.now()\<close> at the n-th reading), the
  parsing of a date string (\<open>new Date(s)\<close> in milliseconds, \<open>None\<close> for an invalid
  date), and the upstream's endpoints, whose answers may depend on all earlier calls.
\<close>

record world =
  now_ms :: "nat \<Rightarrow> int"
  parseDate :: "string \<Rightarrow> int option"
  postToken :: "event list \<Rightarrow> err + tokenResponse"
  postLookup :: "event list \<Rightarrow> axiosConfig \<Rightarrow> err + client list option"
  getClients :: "event list \<Rightarrow> axiosConfig \<Rightarrow> err + client list option"
  getServices :: "event list \<Rightarrow> axiosConfig \<Rightarrow> err + appointment list option"
  getRunningLate :: "event list \<Rightarrow> axiosConfig \<Rightarrow> err + appointment option"
  putRunningLate :: "event list \<Rightarrow> axiosConfig \<Rightarrow> err + unit"

text \<open>
  The process state: the two module variables \<open>token\<close> and \<open>tokenExpiry\<close> (\<open>None\<close> is
  \<open>null\<close>), the upstream calls made so far and the number of clock readings so far.
\<close>

record state =
  token :: "string option"
  tokenExpiry :: "int option"
  trace :: "event list"
  ticks :: nat

section \<open>Token manager\<close>

text \<open>
  Line 42: \<open>token && tokenExpiry && Date.now() < tokenExpiry - 300000\<close>. The clock is
  read only when both variables are truthy.
\<close>

definition cachedToken :: "world \<Rightarrow> state \<Rightarrow> string option \<times> state" where
  "cachedToken w s =
     (case (token s, tokenExpiry s) of
        (Some t, Some e) \<Rightarrow>
          if t \<noteq> [] \<and> e \<noteq> 0 then
            (if now_ms w (ticks s) < e - 300000 then Some t else None,
             s\<lparr>ticks := Suc (ticks s)\<rparr>)
          else (None, s)
      | _ \<Rightarrow> (None, s))"

definition getToken :: "world \<Rightarrow> state \<Rightarrow> (err + string) \<times> state" where
  "getToken w s =
     (case cachedToken w s of
        (Some t, s0) \<Rightarrow> (Inr t, s0)
      | (None, s0) \<Rightarrow>
          (let res = postToken w (trace s0);
               s1 = s0\<lparr>trace := trace s0 @ [TokenPost res]\<rparr>
           in case res of
                Inl e \<Rightarrow> (Inl e, s1)
              | Inr d \<Rightarrow>
                  (Inr (access_token d),
                   s1\<lparr>token := Some (access_token d),
                      tokenExpiry := Some (now_ms w (ticks s1) + expires_in d * 1000),
                      ticks := Suc (ticks s1)\<rparr>)))"

section \<open>Calling the upstream\<close>

text \<open>
  \<open>callMeevoAPI(endpoint, method, data)\<close>. The endpoint of the world that answers and the
  constructor that records its answer are passed along, since each endpoint has its own
  type of body. An error of the token manager is thrown before any request is sent.
\<close>

definition callMeevoAPI ::
  "world \<Rightarrow> (event list \<Rightarrow> axiosConfig \<Rightarrow> err + 'a) \<Rightarrow> ('a \<Rightarrow> reply) \<Rightarrow>
   string \<Rightarrow> string \<Rightarrow> payload option \<Rightarrow> state \<Rightarrow> (err + 'a) \<times> state" where
  "callMeevoAPI w axios rec endpoint meth dat s =
     (case getToken w s of
        (Inl e, s1) \<Rightarrow> (Inl e, s1)
      | (Inr authToken, s1) \<Rightarrow>
          (let config = \<lparr>httpMethod = meth,
                         url = API_URL @ endpoint,
                         authorization = ''Bearer '' @ authToken,
                         httpData = (if dat \<noteq> None \<and> meth \<noteq> ''GET'' then dat else None)\<rparr>;
               response = axios (trace s1) config
           in (response, s1\<lparr>trace := trace s1 @ [ApiCall config (map_sum id rec response)]\<rparr>)))"

section \<open>The request and its answer\<close>

record markLateRequest =
  appointment_service_id :: "string option"
  client_phone :: "string option"
  client_email :: "string option"
  location_id :: "string option"
  estimated_minutes :: "int option"

text \<open>
  The JSON body of the answer; \<open>marked_id\<close> is its field \<open>appointment_service_id\<close>.
  An absent field is \<open>None\<close>.
\<close>

record markLateResult =
  success :: bool
  marked_late :: "bool option"
  marked_id :: "string option"
  appointment_time :: "string option"
  message :: "string option"
  error :: "string option"

definition failure :: "string \<Rightarrow> markLateResult" where
  "failure msg =
     \<lparr>success = False, marked_late = None, marked_id = None,
      appointment_time = None, message = None, error = Some msg\<rparr>"

definition marked :: "string \<Rightarrow> string \<Rightarrow> markLateResult" where
  "marked aptServiceId time =
     \<lparr>success = True, marked_late = Some True, marked_id = Some aptServiceId,
      appointment_time = Some time,
      message = Some ''Your barber has been notified that you're running late.'',
      error = None\<rparr>"

text \<open>
  How a block of the handler ends: a call threw, the handler answered and returned, or the
  block ran through with a value.
\<close>

datatype 'a outcome = Throw err | Respond markLateResult | Continue 'a

section \<open>Identity resolver\<close>

text \<open>Lines 94 to 99: the filter of the client lookup.\<close>

definition lookupBodyOf :: "string option \<Rightarrow> string option \<Rightarrow> lookupBody" where
  "lookupBodyOf nPhone nEmail =
     (if truthy nPhone then \<lparr>PhoneNumbers = map_option (\<lambda>p. [p]) nPhone, EmailIds = None\<rparr>
      else if truthy nEmail then \<lparr>PhoneNumbers = None, EmailIds = map_option (\<lambda>e. [e]) nEmail\<rparr>
      else \<lparr>PhoneNumbers = None, EmailIds = None\<rparr>)"

text \<open>
  Line 134: \<open>!a.isCancelled && new Date(a.startTime) >= now\<close>; a comparison with an
  invalid date is false.
\<close>

definition isUpcoming :: "world \<Rightarrow> int \<Rightarrow> appointment \<Rightarrow> bool" where
  "isUpcoming w now a =
     (\<not> isCancelled a \<and>
      (case parseDate w (startTime a) of None \<Rightarrow> False | Some t \<Rightarrow> now \<le> t))"

text \<open>
  Line 135: \<open>new Date(a.startTime) - new Date(b.startTime)\<close>; a difference with an
  invalid date is \<open>NaN\<close>, which sorting reads as \<open>0\<close>.
\<close>

definition compareStart :: "world \<Rightarrow> appointment \<Rightarrow> appointment \<Rightarrow> int" where
  "compareStart w a b =
     (case (parseDate w (startTime a), parseDate w (startTime b)) of
        (Some x, Some y) \<Rightarrow> x - y
      | _ \<Rightarrow> 0)"

text \<open>
  \<open>Array.prototype.sort\<close> with a comparator is stable: elements that compare equal keep
  their order. Insertion from the right, before the first element that is not smaller,
  computes that order.
\<close>

fun insertBy :: "('a \<Rightarrow> 'a \<Rightarrow> int) \<Rightarrow> 'a \<Rightarrow> 'a list \<Rightarrow> 'a list" where
  "insertBy cmp x [] = [x]"
| "insertBy cmp x (y # ys) = (if cmp x y \<le> 0 then x # y # ys else y # insertBy cmp x ys)"

definition sortBy :: "('a \<Rightarrow> 'a \<Rightarrow> int) \<Rightarrow> 'a list \<Rightarrow> 'a list" where
  "sortBy cmp xs = foldr (insertBy cmp) xs []"

text \<open>Lines 133 to 135: \<open>.filter(...).sort(...)[0]\<close>, \<open>undefined\<close> on the empty array.\<close>

definition upcomingOf :: "world \<Rightarrow> int \<Rightarrow> appointment list \<Rightarrow> appointment option" where
  "upcomingOf w now apts =
     (case sortBy (compareStart w) (filter (isUpcoming w now) apts) of
        [] \<Rightarrow> None
      | a # _ \<Rightarrow> Some a)"

definition servicesEndpoint :: "string \<Rightarrow> string \<Rightarrow> string" where
  "servicesEndpoint cid locationId =
     ''/book/client/'' @ cid @ ''/services?TenantId='' @ TENANT_ID @ ''&LocationId='' @ locationId"

definition lookupEndpoint :: "string \<Rightarrow> string" where
  "lookupEndpoint locationId =
     ''/clients/lookup?TenantId='' @ TENANT_ID @ ''&LocationId='' @ locationId"

definition runningLateEndpoint :: "string \<Rightarrow> string \<Rightarrow> string" where
  "runningLateEndpoint locationId aptServiceId =
     ''/book/service/runninglate?TenantId='' @ TENANT_ID @ ''&LocationId='' @ locationId
       @ ''&AppointmentServiceId='' @ aptServiceId"

text \<open>
  Lines 120 to 145, shared by both handlers: the appointments of the client, the clock
  reading and the choice of the upcoming appointment, which is handed on whole.
\<close>

definition nextAppointment ::
  "world \<Rightarrow> string \<Rightarrow> string \<Rightarrow> state \<Rightarrow> appointment outcome \<times> state" where
  "nextAppointment w locationId cid s =
     (case callMeevoAPI w (getServices w) ServicesReply
             (servicesEndpoint cid locationId) ''GET'' None s of
        (Inl e, s1) \<Rightarrow> (Throw e, s1)
      | (Inr aptsResult, s1) \<Rightarrow>
          (case aptsResult of
             None \<Rightarrow> (Respond (failure ''No appointments found for this client''), s1)
           | Some apts \<Rightarrow>
               if apts = [] then
                 (Respond (failure ''No appointments found for this client''), s1)
               else
                 (let now = now_ms w (ticks s1);
                      s2 = s1\<lparr>ticks := Suc (ticks s1)\<rparr>
                  in case upcomingOf w now apts of
                       None \<Rightarrow>
                         (Respond (failure
                            ''No upcoming appointments found to mark as running late''), s2)
                     | Some upcoming \<Rightarrow> (Continue upcoming, s2))))"

text \<open>Lines 86 to 145 of the current handler; the result is the new \<open>aptServiceId\<close>.\<close>

definition resolveUpcoming ::
  "world \<Rightarrow> string \<Rightarrow> string option \<Rightarrow> string option \<Rightarrow> state \<Rightarrow>
   string option outcome \<times> state" where
  "resolveUpcoming w locationId phone email s =
     (case callMeevoAPI w (postLookup w) ClientsReply (lookupEndpoint locationId) ''POST''
             (Some (LookupData (lookupBodyOf (normalizedPhone phone) (normalizedEmail email)))) s of
        (Inl e, s1) \<Rightarrow> (Throw e, s1)
      | (Inr lookupResult, s1) \<Rightarrow>
          (let clients = (case lookupResult of None \<Rightarrow> [] | Some cs \<Rightarrow> cs);
               cid = (case clients of [] \<Rightarrow> None | c # _ \<Rightarrow> Some (clientId c))
           in case cid of
                None \<Rightarrow>
                  (Respond (failure ''No client found with that phone number or email''), s1)
              | Some i \<Rightarrow>
                  if i = [] then
                    (Respond (failure ''No client found with that phone number or email''), s1)
                  else
                    (case nextAppointment w locationId i s1 of
                       (Throw e, s2) \<Rightarrow> (Throw e, s2)
                     | (Respond r, s2) \<Rightarrow> (Respond r, s2)
                     | (Continue upcoming, s2) \<Rightarrow>
                         (Continue (Some (appointmentServiceId upcoming)), s2))))"

section \<open>Late-marking executor\<close>

text \<open>Lines 174 to 181: the payload of the write, built from the details at hand.\<close>

definition updateBodyOf :: "appointment \<Rightarrow> updateBody" where
  "updateBodyOf details =
     \<lparr>ServiceId = serviceId details,
      ClientId = aptClientId details,
      EmployeeId = employeeId details,
      ConcurrencyCheckDigits = concurrencyCheckDigits details,
      StartTime = startTime details,
      IsRunningLate = True\<rparr>"

text \<open>Lines 183 to 196: the write and the answer on success.\<close>

definition putRunningLateFor ::
  "world \<Rightarrow> string \<Rightarrow> string \<Rightarrow> appointment \<Rightarrow> state \<Rightarrow> (err + markLateResult) \<times> state" where
  "putRunningLateFor w locationId aptServiceId details s =
     (case callMeevoAPI w (putRunningLate w) (\<lambda>_. UpdateReply)
             (runningLateEndpoint locationId aptServiceId) ''PUT''
             (Some (UpdateData (updateBodyOf details))) s of
        (Inl e, s1) \<Rightarrow> (Inl e, s1)
      | (Inr _, s1) \<Rightarrow> (Inr (marked aptServiceId (startTime details)), s1))"

text \<open>Lines 155 to 196 of the current handler: the read of the details, then the write.\<close>

definition runningLate ::
  "world \<Rightarrow> string \<Rightarrow> string \<Rightarrow> state \<Rightarrow> (err + markLateResult) \<times> state" where
  "runningLate w locationId aptServiceId s =
     (case callMeevoAPI w (getRunningLate w) DetailsReply
             (runningLateEndpoint locationId aptServiceId) ''GET'' None s of
        (Inl e, s1) \<Rightarrow> (Inl e, s1)
      | (Inr detailsResult, s1) \<Rightarrow>
          (case detailsResult of
             None \<Rightarrow> (Inr (failure ''Could not get appointment details''), s1)
           | Some details \<Rightarrow> putRunningLateFor w locationId aptServiceId details s1))"

section \<open>The handler of \<open>POST /mark-late\<close>\<close>

text \<open>Line 80: \<open>location_id || CONFIG.LOCATION_ID\<close>.\<close>

definition locationOf :: "markLateRequest \<Rightarrow> string" where
  "locationOf req =
     (case location_id req of
        None \<Rightarrow> LOCATION_ID
      | Some l \<Rightarrow> if l = [] then LOCATION_ID else l)"

text \<open>Line 85: whether the identity resolver runs.\<close>

definition needsLookup :: "markLateRequest \<Rightarrow> bool" where
  "needsLookup req =
     (\<not> truthy (appointment_service_id req) \<and>
      (truthy (client_phone req) \<or> truthy (client_email req)))"

text \<open>The body of the \<open>try\<close> block, lines 79 to 196.\<close>

definition markLateTry ::
  "world \<Rightarrow> markLateRequest \<Rightarrow> state \<Rightarrow> (err + markLateResult) \<times> state" where
  "markLateTry w req s =
     (let locationId = locationOf req
      in case (if needsLookup req
               then resolveUpcoming w locationId (client_phone req) (client_email req) s
               else (Continue (appointment_service_id req), s)) of
           (Throw e, s1) \<Rightarrow> (Inl e, s1)
         | (Respond r, s1) \<Rightarrow> (Inr r, s1)
         | (Continue aptServiceId, s1) \<Rightarrow>
             (case aptServiceId of
                None \<Rightarrow>
                  (Inr (failure
                     ''Missing appointment_service_id or client_phone/client_email to lookup''), s1)
              | Some i \<Rightarrow>
                  if i = [] then
                    (Inr (failure
                       ''Missing appointment_service_id or client_phone/client_email to lookup''), s1)
                  else runningLate w locationId i s1))"

text \<open>
  Lines 198 to 204, the \<open>catch\<close>: the message of the upstream's error body when it is
  truthy, a fixed message otherwise.
\<close>

definition caught :: "err \<Rightarrow> markLateResult" where
  "caught e =
     failure (case e of
                None \<Rightarrow> ''Failed to mark appointment as running late''
              | Some m \<Rightarrow> if m = [] then ''Failed to mark appointment as running late'' else m)"

definition markLate :: "world \<Rightarrow> markLateRequest \<Rightarrow> state \<Rightarrow> markLateResult \<times> state" where
  "markLate w req s =
     (case markLateTry w req s of
        (Inl e, s1) \<Rightarrow> (caught e, s1)
      | (Inr r, s1) \<Rightarrow> (r, s1))"

text \<open>
  What the caller of \<open>POST /mark-late\<close> receives: a response with its status code and its
  JSON body, or no response of the handler when an error leaves it uncaught.
\<close>

datatype httpOutcome = Response nat markLateResult | Uncaught err

text \<open>
  \<open>res.json(body)\<close>; the handler never calls \<open>res.status\<close>, so the status is the 200 that
  Express starts with.
\<close>

definition resJson :: "markLateResult \<Rightarrow> httpOutcome" where
  "resJson body = Response 200 body"

text \<open>
  Lines 75 to 205 as the route: every \<open>return\<close> of the \<open>try\<close> block hands its object to
  \<open>res.json\<close>, and so does the \<open>catch\<close> block with the error that was thrown.
\<close>

definition postMarkLate :: "world \<Rightarrow> markLateRequest \<Rightarrow> state \<Rightarrow> httpOutcome \<times> state" where
  "postMarkLate w req s =
     (case markLateTry w req s of
        (Inl e, s1) \<Rightarrow> (resJson (caught e), s1)
      | (Inr r, s1) \<Rightarrow> (resJson r, s1))"

section \<open>The earlier handler\<close>

text \<open>
  The second handler of the source fetches the whole client list and searches it, and
  reads the details only when the resolver has not run. Lines 307 to 314: the predicate
  of \<open>find\<close>.
\<close>

definition matchesClient :: "string option \<Rightarrow> string option \<Rightarrow> client \<Rightarrow> bool" where
  "matchesClient nPhone nEmail c =
     ((truthy nPhone \<and>
       Some (slice (- 10) (replace_nondigits
               (case primaryPhoneNumber c of None \<Rightarrow> [] | Some p \<Rightarrow> p))) = nPhone)
      \<or> (truthy nEmail \<and> map_option toLowerCase (emailAddress c) = nEmail))"

definition clientsEndpoint :: "string \<Rightarrow> string" where
  "clientsEndpoint locationId =
     ''/clients?TenantId='' @ TENANT_ID @ ''&LocationId='' @ locationId"

text \<open>
  Lines 296 to 351; the result is the new \<open>aptServiceId\<close> with the new
  \<open>appointmentDetails\<close>, the entry of the listing.
\<close>

definition resolveUpcoming2 ::
  "world \<Rightarrow> string \<Rightarrow> string option \<Rightarrow> string option \<Rightarrow> state \<Rightarrow>
   (string option \<times> appointment option) outcome \<times> state" where
  "resolveUpcoming2 w locationId phone email s =
     (case callMeevoAPI w (getClients w) ClientsReply (clientsEndpoint locationId) ''GET'' None s of
        (Inl e, s1) \<Rightarrow> (Throw e, s1)
      | (Inr clientsResult, s1) \<Rightarrow>
          (let cid = (case clientsResult of
                        None \<Rightarrow> None
                      | Some cs \<Rightarrow>
                          map_option clientId
                            (find (matchesClient (normalizedPhone phone) (normalizedEmail email)) cs))
           in case cid of
                None \<Rightarrow>
                  (Respond (failure ''No client found with that phone number or email''), s1)
              | Some i \<Rightarrow>
                  if i = [] then
                    (Respond (failure ''No client found with that phone number or email''), s1)
                  else
                    (case nextAppointment w locationId i s1 of
                       (Throw e, s2) \<Rightarrow> (Throw e, s2)
                     | (Respond r, s2) \<Rightarrow> (Respond r, s2)
                     | (Continue upcoming, s2) \<Rightarrow>
                         (Continue (Some (appointmentServiceId upcoming), Some upcoming), s2))))"

text \<open>Lines 361 to 403: the details are read only when none are at hand.\<close>

definition runningLate2 ::
  "world \<Rightarrow> string \<Rightarrow> string \<Rightarrow> appointment option \<Rightarrow> state \<Rightarrow>
   (err + markLateResult) \<times> state" where
  "runningLate2 w locationId aptServiceId appointmentDetails s =
     (case appointmentDetails of
        Some details \<Rightarrow> putRunningLateFor w locationId aptServiceId details s
      | None \<Rightarrow>
          (case callMeevoAPI w (getRunningLate w) DetailsReply
                  (runningLateEndpoint locationId aptServiceId) ''GET'' None s of
             (Inl e, s1) \<Rightarrow> (Inl e, s1)
           | (Inr detailsResult, s1) \<Rightarrow>
               (case detailsResult of
                  None \<Rightarrow> (Inr (failure ''Could not get appointment details''), s1)
                | Some details \<Rightarrow> putRunningLateFor w locationId aptServiceId details s1)))"

definition markLateTry2 ::
  "world \<Rightarrow> markLateRequest \<Rightarrow> state \<Rightarrow> (err + markLateResult) \<times> state" where
  "markLateTry2 w req s =
     (let locationId = locationOf req
      in case (if needsLookup req
               then resolveUpcoming2 w locationId (client_phone req) (client_email req) s
               else (Continue (appointment_service_id req, None), s)) of
           (Throw e, s1) \<Rightarrow> (Inl e, s1)
         | (Respond r, s1) \<Rightarrow> (Inr r, s1)
         | (Continue (aptServiceId, appointmentDetails), s1) \<Rightarrow>
             (case aptServiceId of
                None \<Rightarrow>
                  (Inr (failure
                     ''Missing appointment_service_id or client_phone/client_email to lookup''), s1)
              | Some i \<Rightarrow>
                  if i = [] then
                    (Inr (failure
                       ''Missing appointment_service_id or client_phone/client_email to lookup''), s1)
                  else runningLate2 w locationId i appointmentDetails s1))"

definition markLate2 :: "world \<Rightarrow> markLateRequest \<Rightarrow> state \<Rightarrow> markLateResult \<times> state" where
  "markLate2 w req s =
     (case markLateTry2 w req s of
        (Inl e, s1) \<Rightarrow> (caught e, s1)
      | (Inr r, s1) \<Rightarrow> (r, s1))"

section \<open>Observations on the list of calls\<close>

text \<open>The requests sent to the API with their answers, the token calls left out.\<close>

fun apiCalls :: "event list \<Rightarrow> (axiosConfig \<times> (err + reply)) list" where
  "apiCalls [] = []"
| "apiCalls (TokenPost r # es) = apiCalls es"
| "apiCalls (ApiCall c r # es) = (c, r) # apiCalls es"

text \<open>The error of a call that threw.\<close>

fun thrown :: "event \<Rightarrow> err option" where
  "thrown (TokenPost r) = (case r of Inl e \<Rightarrow> Some e | Inr _ \<Rightarrow> None)"
| "thrown (ApiCall c r) = (case r of Inl e \<Rightarrow> Some e | Inr _ \<Rightarrow> None)"

text \<open>
  A stretch of calls in which none threw, or in which only the last one threw, with the
  given error.
\<close>

definition throwsLast :: "event list \<Rightarrow> err option \<Rightarrow> bool" where
  "throwsLast new eo =
     (case eo of
        None \<Rightarrow> list_all (\<lambda>ev. thrown ev = None) new
      | Some e \<Rightarrow> (case rev new of
                     [] \<Rightarrow> False
                   | l # old \<Rightarrow> thrown l = Some e \<and> list_all (\<lambda>ev. thrown ev = None) old))"

definition errOf :: "err + 'a \<Rightarrow> err option" where
  "errOf r = (case r of Inl e \<Rightarrow> Some e | Inr _ \<Rightarrow> None)"

definition errOfOutcome :: "'a outcome \<Rightarrow> err option" where
  "errOfOutcome r = (case r of Throw e \<Rightarrow> Some e | Respond _ \<Rightarrow> None | Continue _ \<Rightarrow> None)"

text \<open>The state \<open>s'\<close> extends the calls of \<open>s\<close> by such a stretch.\<close>

definition ranFrom :: "state \<Rightarrow> err option \<Rightarrow> state \<Rightarrow> bool" where
  "ranFrom s eo s' = (\<exists>new. trace s' = trace s @ new \<and> throwsLast new eo)"

text \<open>
  The requests that lines 58 to 69 build for a read and for the write of the running-late
  resource.
\<close>

definition getConfig :: "string \<Rightarrow> string \<Rightarrow> axiosConfig" where
  "getConfig tok endpoint =
     \<lparr>httpMethod = ''GET'', url = API_URL @ endpoint,
      authorization = ''Bearer '' @ tok, httpData = None\<rparr>"

definition putConfig :: "string \<Rightarrow> string \<Rightarrow> updateBody \<Rightarrow> axiosConfig" where
  "putConfig tok endpoint body =
     \<lparr>httpMethod = ''PUT'', url = API_URL @ endpoint,
      authorization = ''Bearer '' @ tok, httpData = Some (UpdateData body)\<rparr>"

section \<open>Sample worlds and requests\<close>

text \<open>The state of a process that has not yet asked for a token.\<close>

definition emptyState :: state where
  "emptyState = \<lparr>token = None, tokenExpiry = None, trace = [], ticks = 0\<rparr>"

text \<open>The request \<open>{}\<close>.\<close>

definition emptyRequest :: markLateRequest where
  "emptyRequest =
     \<lparr>appointment_service_id = None, client_phone = None, client_email = None,
      location_id = None, estimated_minutes = None\<rparr>"

text \<open>
  A world whose token endpoint hands out tokens that live one minute and whose other
  endpoints throw; the clock advances one second at each reading.
\<close>

definition quietWorld :: world where
  "quietWorld =
     \<lparr>now_ms = (\<lambda>n. 1000 * int n),
      parseDate = (\<lambda>s. None),
      postToken = (\<lambda>tr. Inr \<lparr>access_token = ''tok'', expires_in = 60\<rparr>),
      postLookup = (\<lambda>tr c. Inl None),
      getClients = (\<lambda>tr c. Inl None),
      getServices = (\<lambda>tr c. Inl None),
      getRunningLate = (\<lambda>tr c. Inl None),
      putRunningLate = (\<lambda>tr c. Inl None)\<rparr>"

text \<open>The same world with a token endpoint that throws.\<close>

definition downWorld :: world where
  "downWorld = quietWorld\<lparr>postToken := (\<lambda>tr. Inl None)\<rparr>"

text \<open>A state whose cached token expires at one hour.\<close>

definition cachedState :: state where
  "cachedState = \<lparr>token = Some ''old'', tokenExpiry = Some 3600000, trace = [], ticks = 0\<rparr>"

text \<open>
  A salon with one client and five entries in her listing. The clock stands at 0; the
  start times are named by their distance from it.
\<close>

definition anna :: client where
  "anna = \<lparr>clientId = ''C-1'', firstName = ''Anna'', lastName = ''Lee'',
           primaryPhoneNumber = Some ''(555) 123-4567'', emailAddress = Some ''Anna@Example.org''\<rparr>"

definition apt :: "string \<Rightarrow> string \<Rightarrow> bool \<Rightarrow> int \<Rightarrow> appointment" where
  "apt i t c n =
     \<lparr>appointmentServiceId = i, startTime = t, isCancelled = c, serviceId = ''S-1'',
      aptClientId = ''C-1'', employeeId = ''E-1'', concurrencyCheckDigits = n\<rparr>"

definition salonApts :: "appointment list" where
  "salonApts =
     [apt ''APT-3h'' ''T+3h'' False 7,
      apt ''APT-30m'' ''T+30m'' True 7,
      apt ''APT-past'' ''T-1h'' False 7,
      apt ''APT-1h'' ''T+1h'' False 7,
      apt ''APT-1h-bis'' ''T+1h'' False 7]"

definition salonDate :: "string \<Rightarrow> int option" where
  "salonDate t =
     (if t = ''T+3h'' then Some 10800000
      else if t = ''T+1h'' then Some 3600000
      else if t = ''T+30m'' then Some 1800000
      else if t = ''T-1h'' then Some (- 3600000)
      else None)"

text \<open>
  Every endpoint of the salon answers; the running-late read returns the appointment at one
  hour with the concurrency token 8, while the listing still shows 7.
\<close>

definition salonWorld :: world where
  "salonWorld =
     \<lparr>now_ms = (\<lambda>n. 0),
      parseDate = salonDate,
      postToken = (\<lambda>tr. Inr \<lparr>access_token = ''tok'', expires_in = 3600\<rparr>),
      postLookup = (\<lambda>tr c. Inr (Some [anna])),
      getClients = (\<lambda>tr c. Inr (Some [anna])),
      getServices = (\<lambda>tr c. Inr (Some salonApts)),
      getRunningLate = (\<lambda>tr c. Inr (Some (apt ''APT-1h'' ''T+1h'' False 8))),
      putRunningLate = (\<lambda>tr c. Inr ())\<rparr>"

definition phoneRequest :: markLateRequest where
  "phoneRequest = emptyRequest\<lparr>client_phone := Some ''+1 (555) 123-4567''\<rparr>"

text \<open>Scenario C and Scenario E of the specification.\<close>

definition directRequest :: markLateRequest where
  "directRequest = emptyRequest\<lparr>appointment_service_id := Some ''APT-42''\<rparr>"

definition conflictWorld :: world where
  "conflictWorld = salonWorld\<lparr>putRunningLate := (\<lambda>tr c. Inl (Some ''Concurrency conflict''))\<rparr>"

text \<open>A salon whose write throws with an error body that holds the empty message.\<close>

definition emptyMessageWorld :: world where
  "emptyMessageWorld = salonWorld\<lparr>putRunningLate := (\<lambda>tr c. Inl (Some []))\<rparr>"

text \<open>
  A request whose phone number has no digit, and one whose phone number belongs to nobody
  while its email address is Anna's.
\<close>

definition noDigitRequest :: markLateRequest where
  "noDigitRequest =
     emptyRequest\<lparr>client_phone := Some ''n/a'', client_email := Some ''Anna@Example.org''\<rparr>"

definition otherPhoneRequest :: markLateRequest where
  "otherPhoneRequest =
     emptyRequest\<lparr>client_phone := Some ''555 000 0000'',
                  client_email := Some ''ANNA@example.org''\<rparr>"

section \<open>Normalisation of the phone number and of the email address\<close>

lemma slice_last10: "slice (- 10) s = drop (length s - 10) s"
proof -
  have "nat (int (length s) - 10) = length s - 10" by arith
  then show ?thesis by (simp add: slice_def Let_def max_def)
qed

text \<open>
  C4: a phone number with at least ten digits is normalised to its last ten digits: the
  result has ten characters, all of them digits, and the digits of the input end with it.
\<close>

theorem normalizedPhone_last10:
  assumes "10 \<le> length (filter isDigit p)"
  shows "\<exists>d pre. normalizedPhone (Some p) = Some d \<and> length d = 10 \<and> list_all isDigit d
           \<and> filter isDigit p = pre @ d"
proof -
  let ?ds = "filter isDigit p"
  let ?d = "drop (length ?ds - 10) ?ds"
  have "slice (- 10) ?ds = ?d" by (rule slice_last10)
  then have 1: "normalizedPhone (Some p) = Some ?d"
    by (simp add: normalizedPhone_def replace_nondigits_def)
  have 2: "length ?d = 10" using assms by simp
  have "set ?d \<subseteq> set ?ds" by (rule set_drop_subset)
  then have 3: "list_all isDigit ?d" by (auto simp: list_all_iff)
  have 4: "?ds = take (length ?ds - 10) ?ds @ ?d" by simp
  from 1 2 3 4 show ?thesis by blast
qed

theorem normalizedPhone_last10_witness:
  "10 \<le> length (filter isDigit ''+1 (555) 123-4567'') \<and>
   normalizedPhone (Some ''+1 (555) 123-4567'') = Some ''5551234567''"
  using normalizedPhone_last10 [of "''+1 (555) 123-4567''"]
  by (simp add: isDigit_def normalizedPhone_def replace_nondigits_def slice_def)






section \<open>Token manager\<close>

text \<open>
  C3, as the code has it: when the token and its expiry are set and the clock is more than
  300000 ms before the expiry, the cached token is returned, no call is made and the two
  variables are unchanged. Otherwise exactly one call goes to the token endpoint; when it
  succeeds, the token and the expiry (the clock reading after the call plus 1000 times the
  reported lifetime) are replaced and the new token is returned; when it throws, the error
  is passed on and the two variables are unchanged.
\<close>

theorem getToken_cached_or_refreshed:
  assumes "getToken w s = (r, s')"
  shows "(\<forall>t e. token s = Some t \<and> t \<noteq> [] \<and> tokenExpiry s = Some e \<and> e \<noteq> 0 \<and>
                 now_ms w (ticks s) < e - 300000 \<longrightarrow>
            r = Inr t \<and> trace s' = trace s \<and> token s' = token s \<and>
            tokenExpiry s' = tokenExpiry s)
       \<and> (\<not> (\<exists>t e. token s = Some t \<and> t \<noteq> [] \<and> tokenExpiry s = Some e \<and> e \<noteq> 0 \<and>
                 now_ms w (ticks s) < e - 300000) \<longrightarrow>
            trace s' = trace s @ [TokenPost (postToken w (trace s))] \<and>
            (case postToken w (trace s) of
               Inr d \<Rightarrow> r = Inr (access_token d) \<and> token s' = Some (access_token d) \<and>
                         tokenExpiry s' = Some (now_ms w (ticks s' - 1) + expires_in d * 1000)
             | Inl e \<Rightarrow> r = Inl e \<and> token s' = token s \<and> tokenExpiry s' = tokenExpiry s))"
  using assms
  by (auto simp: getToken_def cachedToken_def Let_def
           split: option.splits if_splits sum.splits)

theorem getToken_cached_or_refreshed_witness:
  "getToken quietWorld cachedState = (Inr ''old'', cachedState\<lparr>ticks := 1\<rparr>) \<and>
   trace (cachedState\<lparr>ticks := 1\<rparr>) = trace cachedState \<and>
   token (cachedState\<lparr>ticks := 1\<rparr>) = token cachedState"
proof -
  have h: "getToken quietWorld cachedState = (Inr ''old'', cachedState\<lparr>ticks := 1\<rparr>)"
    by (simp add: getToken_def cachedToken_def quietWorld_def cachedState_def)
  show ?thesis
    using h getToken_cached_or_refreshed [OF h]
    by (simp add: quietWorld_def cachedState_def)
qed

text \<open>
  C3 as stated fails twice: a fresh token that lives one minute is served although the
  clock is not 300000 ms before its expiry, and when the token endpoint throws no token is
  returned and none is stored.
\<close>

theorem getToken_margin_counterexample:
  "fst (getToken quietWorld emptyState) = Inr ''tok'' \<and>
   tokenExpiry (snd (getToken quietWorld emptyState)) = Some 60000 \<and>
   \<not> now_ms quietWorld 0 < 60000 - 300000 \<and>
   fst (getToken downWorld emptyState) = Inl None \<and>
   token (snd (getToken downWorld emptyState)) = None"
  by (simp add: getToken_def cachedToken_def quietWorld_def downWorld_def emptyState_def)

section \<open>Requests that name nothing\<close>

text \<open>
  C7: a request with neither an appointment identifier nor a phone number nor an email
  address (each absent or empty) is answered at once with the message of line 151, and the
  state, with its list of upstream calls, is the one before.
\<close>

theorem markLate_missing:
  assumes "\<not> truthy (appointment_service_id req)"
    and "\<not> truthy (client_phone req)"
    and "\<not> truthy (client_email req)"
  shows "markLate w req s =
           (failure ''Missing appointment_service_id or client_phone/client_email to lookup'', s)"
  using assms
  by (auto simp: markLate_def markLateTry_def needsLookup_def truthy_def Let_def
           split: option.splits)

theorem markLate_missing_witness:
  "\<not> truthy (appointment_service_id emptyRequest) \<and>
   \<not> truthy (client_phone emptyRequest) \<and>
   \<not> truthy (client_email emptyRequest) \<and>
   markLate quietWorld emptyRequest emptyState =
     (failure ''Missing appointment_service_id or client_phone/client_email to lookup'',
      emptyState) \<and>
   trace emptyState = []"
  using markLate_missing [of emptyRequest quietWorld emptyState]
  by (simp add: truthy_def emptyRequest_def emptyState_def)

section \<open>The field \<open>estimated_minutes\<close>\<close>

text \<open>
  C10: two requests that differ only in \<open>estimated_minutes\<close> get the same answer and leave
  the same state, hence the same upstream calls with the same payloads.
\<close>

theorem estimated_minutes_unused:
  "markLate w (req\<lparr>estimated_minutes := m\<rparr>) s = markLate w req s"
  by (simp add: markLate_def markLateTry_def needsLookup_def locationOf_def Let_def)

section \<open>Choice of the upcoming appointment\<close>

lemma set_insertBy: "set (insertBy cmp x ys) = insert x (set ys)"
  by (induction ys) auto

lemma set_sortBy: "set (sortBy cmp xs) = set xs"
  by (induction xs) (simp_all add: sortBy_def set_insertBy)

lemma sortBy_Cons: "sortBy cmp (x # xs) = insertBy cmp x (sortBy cmp xs)"
  by (simp add: sortBy_def)

lemma sortBy_head:
  assumes "\<forall>a\<in>set xs. \<forall>b\<in>set xs. cmp a b = k a - k b" and "xs \<noteq> []"
  shows "\<exists>pre a post rest. xs = pre @ a # post \<and> sortBy cmp xs = a # rest \<and>
           (\<forall>b\<in>set pre. k a < k b) \<and> (\<forall>b\<in>set post. k a \<le> k b)"
  using assms
proof (induction xs)
  case Nil
  then show ?case by simp
next
  case (Cons x xs)
  show ?case
  proof (cases "xs = []")
    case True
    then have "x # xs = [] @ x # []" "sortBy cmp (x # xs) = x # []"
      by (simp_all add: sortBy_def)
    then show ?thesis by (metis empty_iff list.set(1))
  next
    case False
    from Cons.prems have "\<forall>a\<in>set xs. \<forall>b\<in>set xs. cmp a b = k a - k b" by simp
    with Cons.IH False obtain pre a post rest where
      d: "xs = pre @ a # post" "sortBy cmp xs = a # rest"
         "\<forall>b\<in>set pre. k a < k b" "\<forall>b\<in>set post. k a \<le> k b"
      by blast
    have a: "a \<in> set xs" using d(1) by simp
    have c: "cmp x a = k x - k a" using Cons.prems(1) a by simp
    show ?thesis
    proof (cases "k x \<le> k a")
      case True
      then have s: "sortBy cmp (x # xs) = x # a # rest"
        using c d(2) by (simp add: sortBy_Cons)
      have "\<forall>b\<in>set xs. k x \<le> k b"
        using True d(1,3,4) by fastforce
      then have "x # xs = [] @ x # xs \<and> sortBy cmp (x # xs) = x # (a # rest) \<and>
                 (\<forall>b\<in>set []. k x < k b) \<and> (\<forall>b\<in>set xs. k x \<le> k b)"
        using s by simp
      then show ?thesis by blast
    next
      case False
      then have s: "sortBy cmp (x # xs) = a # insertBy cmp x rest"
        using c d(2) by (simp add: sortBy_Cons)
      have "x # xs = (x # pre) @ a # post \<and> sortBy cmp (x # xs) = a # insertBy cmp x rest \<and>
            (\<forall>b\<in>set (x # pre). k a < k b) \<and> (\<forall>b\<in>set post. k a \<le> k b)"
        using s d False by simp
      then show ?thesis by blast
    qed
  qed
qed


lemma isUpcoming_iff:
  "isUpcoming w now a \<longleftrightarrow> \<not> isCancelled a \<and> (\<exists>t. parseDate w (startTime a) = Some t \<and> now \<le> t)"
  by (auto simp: isUpcoming_def split: option.splits)

lemma upcomingOf_None:
  "upcomingOf w now apts = None \<longleftrightarrow> filter (isUpcoming w now) apts = []"
proof -
  have "sortBy (compareStart w) xs = [] \<longleftrightarrow> xs = []" for xs
    using set_sortBy [of "compareStart w" xs] by (metis set_empty)
  from this [of "filter (isUpcoming w now) apts"] show ?thesis
    by (cases "sortBy (compareStart w) (filter (isUpcoming w now) apts)")
       (auto simp: upcomingOf_def)
qed

lemma upcomingOf_Some:
  assumes "filter (isUpcoming w now) apts \<noteq> []"
  shows "\<exists>pre a post t. filter (isUpcoming w now) apts = pre @ a # post \<and>
           upcomingOf w now apts = Some a \<and>
           parseDate w (startTime a) = Some t \<and>
           (\<forall>b\<in>set pre. \<exists>u. parseDate w (startTime b) = Some u \<and> t < u) \<and>
           (\<forall>b\<in>set post. \<exists>u. parseDate w (startTime b) = Some u \<and> t \<le> u)"
proof -
  let ?c = "filter (isUpcoming w now) apts"
  define startOf where
    "startOf a = (case parseDate w (startTime a) of None \<Rightarrow> 0 | Some t \<Rightarrow> t)"
    for a :: appointment
  have v: "\<forall>a\<in>set ?c. \<exists>t. parseDate w (startTime a) = Some t"
    by (auto simp: isUpcoming_iff)
  then have v': "\<forall>a\<in>set ?c. parseDate w (startTime a) = Some (startOf a)"
    by (auto simp: startOf_def)
  then have "\<forall>a\<in>set ?c. \<forall>b\<in>set ?c. compareStart w a b = startOf a - startOf b"
    by (simp add: compareStart_def)
  from sortBy_head [OF this assms] obtain pre a post rest where
    d: "?c = pre @ a # post" "sortBy (compareStart w) ?c = a # rest"
       "\<forall>b\<in>set pre. startOf a < startOf b" "\<forall>b\<in>set post. startOf a \<le> startOf b"
    by blast
  have 1: "upcomingOf w now apts = Some a" using d(2) by (simp add: upcomingOf_def)
  have m: "set pre \<subseteq> set ?c" "set post \<subseteq> set ?c" "a \<in> set ?c"
    by (simp_all only: d(1)) auto
  have 2: "parseDate w (startTime a) = Some (startOf a)" using v' m(3) by blast
  have 3: "\<forall>b\<in>set pre. \<exists>u. parseDate w (startTime b) = Some u \<and> startOf a < u"
    using v' m(1) d(3) by blast
  have 4: "\<forall>b\<in>set post. \<exists>u. parseDate w (startTime b) = Some u \<and> startOf a \<le> u"
    using v' m(2) d(4) by blast
  from d(1) 1 2 3 4 show ?thesis by blast
qed


lemma isUpcoming_filter:
  "filter (isUpcoming w now) apts =
   filter (\<lambda>a. \<not> isCancelled a \<and> (\<exists>t. parseDate w (startTime a) = Some t \<and> now \<le> t)) apts"
  by (rule filter_cong) (simp_all add: isUpcoming_iff)

lemma nextAppointment_listed:
  assumes "callMeevoAPI w (getServices w) ServicesReply (servicesEndpoint cid loc) ''GET'' None s
             = (Inr (Some apts), s1)"
    and "apts \<noteq> []"
  shows "nextAppointment w loc cid s =
           (case upcomingOf w (now_ms w (ticks s1)) apts of
              None \<Rightarrow> Respond (failure ''No upcoming appointments found to mark as running late'')
            | Some a \<Rightarrow> Continue a,
            s1\<lparr>ticks := Suc (ticks s1)\<rparr>)"
  using assms by (simp add: nextAppointment_def Let_def split: option.splits)

lemma resolveUpcoming_listed:
  assumes "callMeevoAPI w (postLookup w) ClientsReply (lookupEndpoint loc) ''POST''
             (Some (LookupData (lookupBodyOf (normalizedPhone phone) (normalizedEmail email)))) s
             = (Inr (Some (c # cs)), s1)"
    and "clientId c \<noteq> []"
    and "callMeevoAPI w (getServices w) ServicesReply (servicesEndpoint (clientId c) loc) ''GET'' None s1
             = (Inr (Some apts), s2)"
    and "apts \<noteq> []"
  shows "resolveUpcoming w loc phone email s =
           (case upcomingOf w (now_ms w (ticks s2)) apts of
              None \<Rightarrow> Respond (failure ''No upcoming appointments found to mark as running late'')
            | Some a \<Rightarrow> Continue (Some (appointmentServiceId a)),
            s2\<lparr>ticks := Suc (ticks s2)\<rparr>)"
  using assms(1,2) nextAppointment_listed [OF assms(3,4)]
  by (simp add: resolveUpcoming_def Let_def split: option.splits)

text \<open>
  C1: when a request is resolved by phone or email and the listing of the client is not
  empty, the resolver keeps exactly the appointments that are not cancelled and start at or
  after the clock reading, and takes the earliest of them, the first in the upstream's
  order among equals; when none is kept, the handler answers with the message of line 140
  and the state is the one after the listing but for the clock reading, so no further call
  is made.
\<close>

theorem upcoming_selected:
  assumes "needsLookup req"
    and "callMeevoAPI w (postLookup w) ClientsReply (lookupEndpoint (locationOf req)) ''POST''
           (Some (LookupData (lookupBodyOf (normalizedPhone (client_phone req))
                                           (normalizedEmail (client_email req))))) s
           = (Inr (Some (c # cs)), s1)"
    and "clientId c \<noteq> []"
    and "callMeevoAPI w (getServices w) ServicesReply
           (servicesEndpoint (clientId c) (locationOf req)) ''GET'' None s1
           = (Inr (Some apts), s2)"
    and "apts \<noteq> []"
    and "cand = filter (\<lambda>a. \<not> isCancelled a \<and>
                   (\<exists>t. parseDate w (startTime a) = Some t \<and> now_ms w (ticks s2) \<le> t)) apts"
  shows "(cand = [] \<longrightarrow>
            markLate w req s =
              (failure ''No upcoming appointments found to mark as running late'',
               s2\<lparr>ticks := Suc (ticks s2)\<rparr>))
       \<and> (cand \<noteq> [] \<longrightarrow>
            (\<exists>pre a post t.
               cand = pre @ a # post \<and> parseDate w (startTime a) = Some t \<and>
               (\<forall>b\<in>set pre. \<exists>u. parseDate w (startTime b) = Some u \<and> t < u) \<and>
               (\<forall>b\<in>set post. \<exists>u. parseDate w (startTime b) = Some u \<and> t \<le> u) \<and>
               upcomingOf w (now_ms w (ticks s2)) apts = Some a \<and>
               resolveUpcoming w (locationOf req) (client_phone req) (client_email req) s =
                 (Continue (Some (appointmentServiceId a)), s2\<lparr>ticks := Suc (ticks s2)\<rparr>)))"
proof -
  let ?now = "now_ms w (ticks s2)"
  have c: "cand = filter (isUpcoming w ?now) apts"
    using assms(6) by (simp add: isUpcoming_filter)
  have r: "resolveUpcoming w (locationOf req) (client_phone req) (client_email req) s =
           (case upcomingOf w ?now apts of
              None \<Rightarrow> Respond (failure ''No upcoming appointments found to mark as running late'')
            | Some a \<Rightarrow> Continue (Some (appointmentServiceId a)),
            s2\<lparr>ticks := Suc (ticks s2)\<rparr>)"
    by (rule resolveUpcoming_listed [OF assms(2,3,4,5)])
  have 1: "markLate w req s =
             (failure ''No upcoming appointments found to mark as running late'',
              s2\<lparr>ticks := Suc (ticks s2)\<rparr>)" if "cand = []"
  proof -
    from that c have "upcomingOf w ?now apts = None" by (simp add: upcomingOf_None)
    with r assms(1) show ?thesis by (simp add: markLate_def markLateTry_def Let_def)
  qed
  have 2: "\<exists>pre a post t.
               cand = pre @ a # post \<and> parseDate w (startTime a) = Some t \<and>
               (\<forall>b\<in>set pre. \<exists>u. parseDate w (startTime b) = Some u \<and> t < u) \<and>
               (\<forall>b\<in>set post. \<exists>u. parseDate w (startTime b) = Some u \<and> t \<le> u) \<and>
               upcomingOf w ?now apts = Some a \<and>
               resolveUpcoming w (locationOf req) (client_phone req) (client_email req) s =
                 (Continue (Some (appointmentServiceId a)), s2\<lparr>ticks := Suc (ticks s2)\<rparr>)"
    if "cand \<noteq> []"
  proof -
    from that c have "filter (isUpcoming w ?now) apts \<noteq> []" by simp
    from upcomingOf_Some [OF this] obtain pre a post t where
      d: "filter (isUpcoming w ?now) apts = pre @ a # post"
         "upcomingOf w ?now apts = Some a"
         "parseDate w (startTime a) = Some t"
         "\<forall>b\<in>set pre. \<exists>u. parseDate w (startTime b) = Some u \<and> t < u"
         "\<forall>b\<in>set post. \<exists>u. parseDate w (startTime b) = Some u \<and> t \<le> u"
      by blast
    from r d(2) have "resolveUpcoming w (locationOf req) (client_phone req) (client_email req) s =
                 (Continue (Some (appointmentServiceId a)), s2\<lparr>ticks := Suc (ticks s2)\<rparr>)"
      by simp
    with d c show ?thesis by blast
  qed
  from 1 2 show ?thesis by blast
qed

lemmas eval_defs = callMeevoAPI_def getToken_def cachedToken_def salonWorld_def
    emptyState_def phoneRequest_def emptyRequest_def locationOf_def normalizedPhone_def
    normalizedEmail_def lookupBodyOf_def truthy_def replace_nondigits_def slice_def isDigit_def
    lookupEndpoint_def servicesEndpoint_def API_URL_def TENANT_ID_def LOCATION_ID_def
    anna_def Let_def

theorem upcoming_selected_witness:
  "needsLookup phoneRequest \<and>
   upcomingOf salonWorld 0 salonApts = Some (apt ''APT-1h'' ''T+1h'' False 7) \<and>
   (\<exists>pre post. filter (\<lambda>a. \<not> isCancelled a \<and>
                   (\<exists>t. salonDate (startTime a) = Some t \<and> 0 \<le> t)) salonApts
       = pre @ apt ''APT-1h'' ''T+1h'' False 7 # post)"
proof -
  let ?lookup = "callMeevoAPI salonWorld (postLookup salonWorld) ClientsReply
           (lookupEndpoint (locationOf phoneRequest)) ''POST''
           (Some (LookupData (lookupBodyOf (normalizedPhone (client_phone phoneRequest))
                                           (normalizedEmail (client_email phoneRequest))))) emptyState"
  let ?services = "callMeevoAPI salonWorld (getServices salonWorld) ServicesReply
           (servicesEndpoint (clientId anna) (locationOf phoneRequest)) ''GET'' None (snd ?lookup)"
  have h1: "needsLookup phoneRequest"
    by (simp add: needsLookup_def phoneRequest_def emptyRequest_def truthy_def)
  have h2: "?lookup = (Inr (Some (anna # [])), snd ?lookup)"
    by (simp add: eval_defs)
  have h3: "clientId anna \<noteq> []" by (simp add: anna_def)
  have h4: "?services = (Inr (Some salonApts), snd ?services)"
    by (simp add: eval_defs)
  have h5: "salonApts \<noteq> []" by (simp add: salonApts_def)
  have t: "now_ms salonWorld n = 0" "parseDate salonWorld = salonDate" for n
    by (simp_all add: salonWorld_def)
  have u: "upcomingOf salonWorld 0 salonApts = Some (apt ''APT-1h'' ''T+1h'' False 7)"
    by (simp add: upcomingOf_def sortBy_def isUpcoming_def compareStart_def salonApts_def
          apt_def salonDate_def salonWorld_def)
  have ne: "filter (\<lambda>a. \<not> isCancelled a \<and>
                   (\<exists>t. salonDate (startTime a) = Some t \<and> 0 \<le> t)) salonApts \<noteq> []"
    by (simp add: salonApts_def apt_def salonDate_def)
  from upcoming_selected [OF h1 h2 h3 h4 h5 refl] ne u h1 show ?thesis
    unfolding t by auto
qed

section \<open>Errors of the upstream\<close>

lemma throwsLast_Nil: "throwsLast [] None"
  by (simp add: throwsLast_def)

lemma throwsLast_append:
  "throwsLast n1 None \<Longrightarrow> throwsLast n2 eo \<Longrightarrow> throwsLast (n1 @ n2) eo"
  by (cases eo) (auto simp: throwsLast_def split: list.splits)

lemma ranFrom_refl: "ranFrom s None s"
  by (simp add: ranFrom_def throwsLast_Nil)

lemma ranFrom_trans: "ranFrom s None s1 \<Longrightarrow> ranFrom s1 eo s2 \<Longrightarrow> ranFrom s eo s2"
  unfolding ranFrom_def using throwsLast_append by fastforce

lemma ranFrom_ticks: "ranFrom s eo s' \<Longrightarrow> ranFrom s eo (s'\<lparr>ticks := n\<rparr>)"
  by (simp add: ranFrom_def)

lemma getToken_ran: "getToken w s = (r, s') \<Longrightarrow> ranFrom s (errOf r) s'"
  by (auto simp: getToken_def cachedToken_def Let_def ranFrom_def throwsLast_def errOf_def
           split: option.splits if_splits sum.splits)

lemma callMeevoAPI_ran:
  assumes "callMeevoAPI w ax rec ep m d s = (r, s')"
  shows "ranFrom s (errOf r) s'"
proof (cases "getToken w s")
  case (Pair t s0)
  have g: "ranFrom s (errOf t) s0" using Pair by (rule getToken_ran)
  show ?thesis
  proof (cases t)
    case (Inl e)
    with assms Pair g show ?thesis by (auto simp: callMeevoAPI_def errOf_def)
  next
    case (Inr tok)
    with g have g': "ranFrom s None s0" by (simp add: errOf_def)
    from assms Pair Inr have "ranFrom s0 (errOf r) s'"
      by (auto simp: callMeevoAPI_def Let_def ranFrom_def throwsLast_def errOf_def split: sum.splits)
    with g' show ?thesis by (rule ranFrom_trans)
  qed
qed

lemma nextAppointment_ran:
  assumes "nextAppointment w loc cid s = (r, s')"
  shows "ranFrom s (errOfOutcome r) s'"
proof (cases "callMeevoAPI w (getServices w) ServicesReply (servicesEndpoint cid loc) ''GET'' None s")
  case (Pair t s1)
  from callMeevoAPI_ran [OF Pair] have "ranFrom s (errOf t) s1" .
  with assms Pair show ?thesis
    by (auto simp: nextAppointment_def Let_def errOf_def errOfOutcome_def ranFrom_ticks
             split: sum.splits option.splits if_splits)
qed

lemma resolveUpcoming_ran:
  assumes "resolveUpcoming w loc phone email s = (r, s')"
  shows "ranFrom s (errOfOutcome r) s'"
proof (cases "callMeevoAPI w (postLookup w) ClientsReply (lookupEndpoint loc) ''POST''
             (Some (LookupData (lookupBodyOf (normalizedPhone phone) (normalizedEmail email)))) s")
  case (Pair t s1)
  from callMeevoAPI_ran [OF Pair] have c: "ranFrom s (errOf t) s1" .
  show ?thesis
  proof (cases t)
    case (Inl e)
    with assms Pair c show ?thesis
      by (auto simp: resolveUpcoming_def errOf_def errOfOutcome_def)
  next
    case (Inr lookupResult)
    with c have c': "ranFrom s None s1" by (simp add: errOf_def)
    show ?thesis
    proof (cases "\<exists>c cs. lookupResult = Some (c # cs) \<and> clientId c \<noteq> []")
      case True
      then obtain c cs where l: "lookupResult = Some (c # cs)" "clientId c \<noteq> []" by blast
      obtain u s2 where n: "nextAppointment w loc (clientId c) s1 = (u, s2)"
        by (cases "nextAppointment w loc (clientId c) s1")
      from nextAppointment_ran [OF n] c' have "ranFrom s (errOfOutcome u) s2"
        by (rule ranFrom_trans [rotated])
      with assms Pair Inr l n show ?thesis
        by (cases u) (auto simp: resolveUpcoming_def Let_def errOfOutcome_def)
    next
      case False
      with assms Pair Inr c' show ?thesis
        by (auto simp: resolveUpcoming_def Let_def errOfOutcome_def
                 split: option.splits list.splits if_splits)
    qed
  qed
qed

lemma putRunningLateFor_ran:
  assumes "putRunningLateFor w loc i d s = (r, s')"
  shows "ranFrom s (errOf r) s'"
proof (cases "callMeevoAPI w (putRunningLate w) (\<lambda>_. UpdateReply)
             (runningLateEndpoint loc i) ''PUT'' (Some (UpdateData (updateBodyOf d))) s")
  case (Pair t s1)
  from callMeevoAPI_ran [OF Pair] have "ranFrom s (errOf t) s1" .
  with assms Pair show ?thesis
    by (auto simp: putRunningLateFor_def errOf_def split: sum.splits)
qed

lemma runningLate_ran:
  assumes "runningLate w loc i s = (r, s')"
  shows "ranFrom s (errOf r) s'"
proof (cases "callMeevoAPI w (getRunningLate w) DetailsReply
             (runningLateEndpoint loc i) ''GET'' None s")
  case (Pair t s1)
  from callMeevoAPI_ran [OF Pair] have c: "ranFrom s (errOf t) s1" .
  show ?thesis
  proof (cases t)
    case (Inl e)
    with assms Pair c show ?thesis by (auto simp: runningLate_def errOf_def)
  next
    case (Inr detailsResult)
    with c have c': "ranFrom s None s1" by (simp add: errOf_def)
    show ?thesis
    proof (cases detailsResult)
      case None
      with assms Pair Inr c' show ?thesis by (auto simp: runningLate_def errOf_def)
    next
      case (Some d)
      with assms Pair Inr have "putRunningLateFor w loc i d s1 = (r, s')"
        by (simp add: runningLate_def)
      from putRunningLateFor_ran [OF this] c' show ?thesis by (rule ranFrom_trans [rotated])
    qed
  qed
qed

lemma markLateTry_ran:
  assumes "markLateTry w req s = (r, s')"
  shows "ranFrom s (errOf r) s'"
proof (cases "needsLookup req")
  case True
  obtain u s1 where n: "resolveUpcoming w (locationOf req) (client_phone req) (client_email req) s = (u, s1)"
    by (cases "resolveUpcoming w (locationOf req) (client_phone req) (client_email req) s")
  from resolveUpcoming_ran [OF n] have c: "ranFrom s (errOfOutcome u) s1" .
  show ?thesis
  proof (cases "\<exists>i. u = Continue (Some i) \<and> i \<noteq> []")
    case True
    then obtain i where i: "u = Continue (Some i)" "i \<noteq> []" by blast
    with c have c': "ranFrom s None s1" by (simp add: errOfOutcome_def)
    from assms \<open>needsLookup req\<close> n i have "runningLate w (locationOf req) i s1 = (r, s')"
      by (simp add: markLateTry_def Let_def)
    from runningLate_ran [OF this] c' show ?thesis by (rule ranFrom_trans [rotated])
  next
    case False
    with assms \<open>needsLookup req\<close> n c show ?thesis
      by (cases u) (auto simp: markLateTry_def Let_def errOfOutcome_def errOf_def
                         split: option.splits if_splits)
  qed
next
  case False
  show ?thesis
  proof (cases "\<exists>i. appointment_service_id req = Some i \<and> i \<noteq> []")
    case True
    then obtain i where i: "appointment_service_id req = Some i" "i \<noteq> []" by blast
    with assms False have "runningLate w (locationOf req) i s = (r, s')"
      by (simp add: markLateTry_def Let_def)
    then show ?thesis by (rule runningLate_ran)
  next
    case F: False
    with assms False show ?thesis
      by (auto simp: markLateTry_def Let_def errOf_def ranFrom_refl split: option.splits if_splits)
  qed
qed

lemma throwsLast_unique:
  assumes "throwsLast new eo" and "ev \<in> set new" and "thrown ev = Some e"
  shows "eo = Some e"
proof (cases eo)
  case None
  with assms show ?thesis by (auto simp: throwsLast_def list_all_iff)
next
  case (Some e')
  with assms(1) obtain l old where r: "rev new = l # old" "thrown l = Some e'"
      "list_all (\<lambda>ev. thrown ev = None) old"
    by (auto simp: throwsLast_def split: list.splits)
  from r(1) have "set new = insert l (set old)" by (metis list.simps(15) set_rev)
  with assms(2,3) r(2,3) Some show ?thesis by (auto simp: list_all_iff)
qed

text \<open>
  C9, as the code has it: when a call of the request threw, be it to the token endpoint or
  to the API, the caller receives status 200 with \<open>success: false\<close> and, as \<open>error\<close>, the
  message of the error body when there is one and it is not empty, the fixed message of
  line 202 otherwise. Whatever the request, the caller receives a response with status 200:
  no error leaves the handler.
\<close>

theorem upstream_error_caught:
  assumes "postMarkLate w req s = (out, s')"
    and "trace s' = trace s @ new"
    and "ev \<in> set new"
    and "ev = TokenPost (Inl e) \<or> (\<exists>c. ev = ApiCall c (Inl e))"
  shows "out = Response 200
                 \<lparr>success = False, marked_late = None, marked_id = None,
                  appointment_time = None, message = None,
                  error = Some (case e of
                                  None \<Rightarrow> ''Failed to mark appointment as running late''
                                | Some m \<Rightarrow>
                                    if m = [] then ''Failed to mark appointment as running late''
                                    else m)\<rparr>
         \<and> (\<forall>req' s0. \<exists>body. fst (postMarkLate w req' s0) = Response 200 body)"
proof -
  obtain t where t: "markLateTry w req s = (t, s')"
    and r: "out = resJson (case t of Inl e \<Rightarrow> caught e | Inr x \<Rightarrow> x)"
    using assms(1)
    by (cases "markLateTry w req s") (auto simp: postMarkLate_def split: sum.splits)
  from markLateTry_ran [OF t] assms(2) have l: "throwsLast new (errOf t)"
    by (auto simp: ranFrom_def)
  from assms(4) have "thrown ev = Some e" by auto
  from throwsLast_unique [OF l assms(3) this] have "errOf t = Some e" .
  then have "t = Inl e" by (cases t) (simp_all add: errOf_def)
  with r have 1: "out = Response 200
                 \<lparr>success = False, marked_late = None, marked_id = None,
                  appointment_time = None, message = None,
                  error = Some (case e of
                                  None \<Rightarrow> ''Failed to mark appointment as running late''
                                | Some m \<Rightarrow>
                                    if m = [] then ''Failed to mark appointment as running late''
                                    else m)\<rparr>"
    by (simp add: caught_def failure_def resJson_def)
  have 2: "\<exists>body. fst (postMarkLate w req' s0) = Response 200 body" for req' s0
    by (cases "markLateTry w req' s0")
       (auto simp: postMarkLate_def resJson_def split: sum.splits)
  from 1 2 show ?thesis by blast
qed


lemma run_conflict:
  "postMarkLate conflictWorld directRequest emptyState =
     (Response 200
        \<lparr>success = False, marked_late = None, marked_id = None,
         appointment_time = None, message = None,
         error = Some ''Concurrency conflict''\<rparr>,
      \<lparr>token = Some ''tok'', tokenExpiry = Some 3600000,
       trace =
         [TokenPost (Inr \<lparr>access_token = ''tok'', expires_in = 3600\<rparr>),
          ApiCall
            \<lparr>httpMethod = ''GET'',
             url = ''https://na1pub.meevo.com/publicapi/v1/book/service/runninglate?TenantId=200507&LocationId=201664&AppointmentServiceId=APT-42'',
             authorization = ''Bearer tok'', httpData = None\<rparr>
            (Inr (DetailsReply (Some (apt ''APT-1h'' ''T+1h'' False 8)))),
          ApiCall
            \<lparr>httpMethod = ''PUT'',
             url = ''https://na1pub.meevo.com/publicapi/v1/book/service/runninglate?TenantId=200507&LocationId=201664&AppointmentServiceId=APT-42'',
             authorization = ''Bearer tok'',
             httpData = Some (UpdateData
               \<lparr>ServiceId = ''S-1'', ClientId = ''C-1'', EmployeeId = ''E-1'',
                ConcurrencyCheckDigits = 8, StartTime = ''T+1h'', IsRunningLate = True\<rparr>)\<rparr>
            (Inl (Some ''Concurrency conflict''))],
       ticks = 2\<rparr>)"
  by code_simp

theorem upstream_error_caught_witness:
  "fst (postMarkLate conflictWorld directRequest emptyState) =
     Response 200
        \<lparr>success = False, marked_late = None, marked_id = None,
         appointment_time = None, message = None,
         error = Some ''Concurrency conflict''\<rparr>"
proof -
  let ?put = "\<lparr>httpMethod = ''PUT'',
             url = ''https://na1pub.meevo.com/publicapi/v1/book/service/runninglate?TenantId=200507&LocationId=201664&AppointmentServiceId=APT-42'',
             authorization = ''Bearer tok'',
             httpData = Some (UpdateData
               \<lparr>ServiceId = ''S-1'', ClientId = ''C-1'', EmployeeId = ''E-1'',
                ConcurrencyCheckDigits = 8, StartTime = ''T+1h'', IsRunningLate = True\<rparr>)\<rparr>"
  let ?run = "postMarkLate conflictWorld directRequest emptyState"
  let ?ev = "ApiCall ?put (Inl (Some ''Concurrency conflict''))"
  have h1: "?run = (fst ?run, snd ?run)" by simp
  have h2: "trace (snd ?run) = trace emptyState @ trace (snd ?run)"
    by (simp add: emptyState_def)
  have h3: "?ev \<in> set (trace (snd ?run))"
    by (simp add: run_conflict)
  have h4: "?ev = TokenPost (Inl (Some ''Concurrency conflict'')) \<or>
            (\<exists>c. ?ev = ApiCall c (Inl (Some ''Concurrency conflict'')))"
    by simp
  from upstream_error_caught [OF h1 h2 h3 h4] show ?thesis by simp
qed

text \<open>
  C9 as stated fails when the message is present and empty: the write throws with the
  message \<open>""\<close> and the caller receives the fixed message of line 202, not that message.
\<close>

theorem empty_message_counterexample:
  "postMarkLate emptyMessageWorld directRequest emptyState =
     (Response 200
        \<lparr>success = False, marked_late = None, marked_id = None,
         appointment_time = None, message = None,
         error = Some ''Failed to mark appointment as running late''\<rparr>,
      \<lparr>token = Some ''tok'', tokenExpiry = Some 3600000,
       trace =
         [TokenPost (Inr \<lparr>access_token = ''tok'', expires_in = 3600\<rparr>),
          ApiCall
            \<lparr>httpMethod = ''GET'',
             url = ''https://na1pub.meevo.com/publicapi/v1/book/service/runninglate?TenantId=200507&LocationId=201664&AppointmentServiceId=APT-42'',
             authorization = ''Bearer tok'', httpData = None\<rparr>
            (Inr (DetailsReply (Some (apt ''APT-1h'' ''T+1h'' False 8)))),
          ApiCall
            \<lparr>httpMethod = ''PUT'',
             url = ''https://na1pub.meevo.com/publicapi/v1/book/service/runninglate?TenantId=200507&LocationId=201664&AppointmentServiceId=APT-42'',
             authorization = ''Bearer tok'',
             httpData = Some (UpdateData
               \<lparr>ServiceId = ''S-1'', ClientId = ''C-1'', EmployeeId = ''E-1'',
                ConcurrencyCheckDigits = 8, StartTime = ''T+1h'', IsRunningLate = True\<rparr>)\<rparr>
            (Inl (Some []))],
       ticks = 2\<rparr>)"
  by code_simp

section \<open>Requests with an appointment identifier\<close>

lemma apiCalls_append: "apiCalls (xs @ ys) = apiCalls xs @ apiCalls ys"
  by (induction xs rule: apiCalls.induct) simp_all

lemma getToken_apiCalls: "getToken w s = (r, s') \<Longrightarrow> apiCalls (trace s') = apiCalls (trace s)"
  by (auto simp: getToken_def cachedToken_def Let_def apiCalls_append
           split: option.splits if_splits sum.splits)

lemma callMeevoAPI_apiCalls:
  assumes "callMeevoAPI w ax rec ep m d s = (r, s')"
  shows "(isl r \<and> apiCalls (trace s') = apiCalls (trace s)) \<or>
         (\<exists>tok. apiCalls (trace s') = apiCalls (trace s) @
            [(\<lparr>httpMethod = m, url = API_URL @ ep, authorization = ''Bearer '' @ tok,
               httpData = (if d \<noteq> None \<and> m \<noteq> ''GET'' then d else None)\<rparr>,
              map_sum id rec r)])"
proof (cases "getToken w s")
  case (Pair t s0)
  from getToken_apiCalls [OF Pair] have g: "apiCalls (trace s0) = apiCalls (trace s)" .
  show ?thesis
  proof (cases t)
    case (Inl e)
    with assms Pair g show ?thesis by (auto simp: callMeevoAPI_def)
  next
    case (Inr tok)
    with assms Pair g show ?thesis
      by (auto simp: callMeevoAPI_def Let_def apiCalls_append)
  qed
qed

lemma putRunningLateFor_calls:
  assumes "putRunningLateFor w loc i d s = (r, s')"
  shows "(isl r \<and> apiCalls (trace s') = apiCalls (trace s)) \<or>
         (\<exists>tok e. r = Inl e \<and> apiCalls (trace s') = apiCalls (trace s) @
            [(putConfig tok (runningLateEndpoint loc i) (updateBodyOf d), Inl e)]) \<or>
         (\<exists>tok. r = Inr (marked i (startTime d)) \<and> apiCalls (trace s') = apiCalls (trace s) @
            [(putConfig tok (runningLateEndpoint loc i) (updateBodyOf d), Inr UpdateReply)])"
proof (cases "callMeevoAPI w (putRunningLate w) (\<lambda>_. UpdateReply)
             (runningLateEndpoint loc i) ''PUT'' (Some (UpdateData (updateBodyOf d))) s")
  case (Pair t s1)
  from callMeevoAPI_apiCalls [OF Pair] assms Pair show ?thesis
    by (cases t) (auto simp: putRunningLateFor_def putConfig_def)
qed

lemma runningLate_calls:
  assumes "runningLate w loc i s = (r, s')"
  shows "\<exists>calls. apiCalls (trace s') = apiCalls (trace s) @ calls \<and>
     ((calls = [] \<and> isl r) \<or>
      (\<exists>tok rep. calls = [(getConfig tok (runningLateEndpoint loc i), rep)] \<and>
         rep \<noteq> Inr UpdateReply \<and>
         (isl r \<or> r = Inr (failure ''Could not get appointment details''))) \<or>
      (\<exists>tok tok' d e. r = Inl e \<and> calls =
         [(getConfig tok (runningLateEndpoint loc i), Inr (DetailsReply (Some d))),
          (putConfig tok' (runningLateEndpoint loc i) (updateBodyOf d), Inl e)]) \<or>
      (\<exists>tok tok' d. r = Inr (marked i (startTime d)) \<and> calls =
         [(getConfig tok (runningLateEndpoint loc i), Inr (DetailsReply (Some d))),
          (putConfig tok' (runningLateEndpoint loc i) (updateBodyOf d), Inr UpdateReply)]))"
proof (cases "callMeevoAPI w (getRunningLate w) DetailsReply
             (runningLateEndpoint loc i) ''GET'' None s")
  case (Pair t s1)
  from callMeevoAPI_apiCalls [OF Pair]
  have c: "(isl t \<and> apiCalls (trace s1) = apiCalls (trace s)) \<or>
           (\<exists>tok. apiCalls (trace s1) = apiCalls (trace s) @
              [(getConfig tok (runningLateEndpoint loc i), map_sum id DetailsReply t)])"
    by (simp add: getConfig_def)
  show ?thesis
  proof (cases "\<exists>d. t = Inr (Some d)")
    case False
    with assms Pair have r: "s' = s1" "isl r \<or> r = Inr (failure ''Could not get appointment details'')"
      by (auto simp: runningLate_def split: sum.splits option.splits)
    from False have "isl t \<longrightarrow> isl r" using assms Pair
      by (auto simp: runningLate_def split: sum.splits option.splits)
    moreover have "map_sum id DetailsReply t \<noteq> Inr UpdateReply"
      by (cases t) simp_all
    ultimately show ?thesis using c r by auto
  next
    case True
    then obtain d where d: "t = Inr (Some d)" by blast
    with c obtain tok where g: "apiCalls (trace s1) = apiCalls (trace s) @
              [(getConfig tok (runningLateEndpoint loc i), Inr (DetailsReply (Some d)))]"
      by auto
    from assms Pair d have p: "putRunningLateFor w loc i d s1 = (r, s')"
      by (simp add: runningLate_def)
    from putRunningLateFor_calls [OF p] g show ?thesis by auto
  qed
qed


lemma putRunningLateFor_extends:
  assumes "putRunningLateFor w loc i d s = (r, s')"
  shows "\<exists>new. trace s' = trace s @ new"
  using putRunningLateFor_ran [OF assms] by (auto simp: ranFrom_def)

lemma callMeevoAPI_granted:
  assumes "getToken w s = (Inr tok, s0)"
  shows "callMeevoAPI w ax rec ep m d s =
           (ax (trace s0)
               \<lparr>httpMethod = m, url = API_URL @ ep, authorization = ''Bearer '' @ tok,
                httpData = (if d \<noteq> None \<and> m \<noteq> ''GET'' then d else None)\<rparr>,
            s0\<lparr>trace := trace s0 @
                  [ApiCall \<lparr>httpMethod = m, url = API_URL @ ep,
                            authorization = ''Bearer '' @ tok,
                            httpData = (if d \<noteq> None \<and> m \<noteq> ''GET'' then d else None)\<rparr>
                     (map_sum id rec
                        (ax (trace s0)
                           \<lparr>httpMethod = m, url = API_URL @ ep,
                            authorization = ''Bearer '' @ tok,
                            httpData = (if d \<noteq> None \<and> m \<noteq> ''GET'' then d else None)\<rparr>))]\<rparr>)"
  using assms by (simp add: callMeevoAPI_def Let_def)

lemma callMeevoAPI_refused:
  assumes "getToken w s = (Inl e, s0)"
  shows "callMeevoAPI w ax rec ep m d s = (Inl e, s0)"
  using assms by (simp add: callMeevoAPI_def)

text \<open>
  C8: for a request with a non-empty appointment identifier every request to the API, at
  most two, goes to the running-late resource of that identifier, so neither the client
  lookup nor the listing of a client is called. Once the token is granted the read of that
  resource is sent; when it returns details and the token is granted again, the write is
  sent to the same resource with the identifiers, the concurrency token and the start time
  of those details and the flag set; when the write returns, the answer is the success
  object with the identifier that was given. A success always carries that identifier.
\<close>

theorem direct_identifier:
  assumes "appointment_service_id req = Some i" and "i \<noteq> []"
    and "loc = (case location_id req of None \<Rightarrow> ''201664''
                | Some l \<Rightarrow> if l = [] then ''201664'' else l)"
    and "u = ''https://na1pub.meevo.com/publicapi/v1/book/service/runninglate?TenantId=200507&LocationId=''
               @ loc @ ''&AppointmentServiceId='' @ i"
    and "markLate w req s = (r, s')"
  shows "(\<exists>calls. apiCalls (trace s') = apiCalls (trace s) @ calls \<and> length calls \<le> 2 \<and>
            (\<forall>c rep. (c, rep) \<in> set calls \<longrightarrow> url c = u))
       \<and> (\<forall>tok s0. getToken w s = (Inr tok, s0) \<longrightarrow>
            (let G = \<lparr>httpMethod = ''GET'', url = u, authorization = ''Bearer '' @ tok,
                      httpData = None\<rparr>
             in (\<exists>rest. trace s' = trace s0 @
                    ApiCall G (map_sum id DetailsReply (getRunningLate w (trace s0) G)) # rest) \<and>
                (\<forall>d tok' s2.
                   getRunningLate w (trace s0) G = Inr (Some d) \<and>
                   getToken w (s0\<lparr>trace := trace s0 @
                                  [ApiCall G (Inr (DetailsReply (Some d)))]\<rparr>) = (Inr tok', s2) \<longrightarrow>
                   (let P = \<lparr>httpMethod = ''PUT'', url = u,
                             authorization = ''Bearer '' @ tok',
                             httpData = Some (UpdateData
                               \<lparr>ServiceId = serviceId d, ClientId = aptClientId d,
                                EmployeeId = employeeId d,
                                ConcurrencyCheckDigits = concurrencyCheckDigits d,
                                StartTime = startTime d, IsRunningLate = True\<rparr>)\<rparr>
                    in trace s' = trace s2 @
                         [ApiCall P (map_sum id (\<lambda>_. UpdateReply)
                                       (putRunningLate w (trace s2) P))] \<and>
                       (putRunningLate w (trace s2) P = Inr () \<longrightarrow>
                          r = \<lparr>success = True, marked_late = Some True, marked_id = Some i,
                               appointment_time = Some (startTime d),
                               message =
                                 Some ''Your barber has been notified that you're running late.'',
                               error = None\<rparr>)))))
       \<and> (success r \<longrightarrow> marked_id r = Some i)"
proof -
  have loc: "locationOf req = loc"
    using assms(3) by (simp add: locationOf_def LOCATION_ID_def split: option.splits)
  have ep: "API_URL @ runningLateEndpoint loc i = u"
    using assms(4) by (simp add: API_URL_def runningLateEndpoint_def TENANT_ID_def)
  from assms(1,2) have n: "\<not> needsLookup req" by (simp add: needsLookup_def truthy_def)
  obtain t where t: "runningLate w loc i s = (t, s')"
    and r: "r = (case t of Inl e \<Rightarrow> caught e | Inr x \<Rightarrow> x)"
    using assms(1,2,5) n loc
    by (cases "runningLate w loc i s")
       (auto simp: markLate_def markLateTry_def Let_def split: sum.splits)
  have f: "\<not> success (caught e)" "\<not> success (failure m)" for e m
    by (simp_all add: caught_def failure_def)
  \<comment> \<open>all requests go to the running-late resource\<close>
  from runningLate_calls [OF t] obtain calls where
    c: "apiCalls (trace s') = apiCalls (trace s) @ calls"
    and k: "(calls = [] \<and> isl t) \<or>
      (\<exists>tok rep. calls = [(getConfig tok (runningLateEndpoint loc i), rep)] \<and>
         rep \<noteq> Inr UpdateReply \<and>
         (isl t \<or> t = Inr (failure ''Could not get appointment details''))) \<or>
      (\<exists>tok tok' d e. t = Inl e \<and> calls =
         [(getConfig tok (runningLateEndpoint loc i), Inr (DetailsReply (Some d))),
          (putConfig tok' (runningLateEndpoint loc i) (updateBodyOf d), Inl e)]) \<or>
      (\<exists>tok tok' d. t = Inr (marked i (startTime d)) \<and> calls =
         [(getConfig tok (runningLateEndpoint loc i), Inr (DetailsReply (Some d))),
          (putConfig tok' (runningLateEndpoint loc i) (updateBodyOf d), Inr UpdateReply)])"
    by blast
  have 11: "length calls \<le> 2" using k by auto
  have 12: "\<forall>c rep. (c, rep) \<in> set calls \<longrightarrow> url c = u"
    using k ep by (auto simp: getConfig_def putConfig_def)
  from c 11 12 have 1: "\<exists>calls. apiCalls (trace s') = apiCalls (trace s) @ calls \<and>
            length calls \<le> 2 \<and> (\<forall>c rep. (c, rep) \<in> set calls \<longrightarrow> url c = u)"
    by blast
  have 3: "success r \<longrightarrow> marked_id r = Some i"
    using k r f by (cases t) (auto simp: marked_def)
  \<comment> \<open>the read is sent, and the write after it\<close>
  have 2: "(let G = \<lparr>httpMethod = ''GET'', url = u, authorization = ''Bearer '' @ tok,
                      httpData = None\<rparr>
             in (\<exists>rest. trace s' = trace s0 @
                    ApiCall G (map_sum id DetailsReply (getRunningLate w (trace s0) G)) # rest) \<and>
                (\<forall>d tok' s2.
                   getRunningLate w (trace s0) G = Inr (Some d) \<and>
                   getToken w (s0\<lparr>trace := trace s0 @
                                  [ApiCall G (Inr (DetailsReply (Some d)))]\<rparr>) = (Inr tok', s2) \<longrightarrow>
                   (let P = \<lparr>httpMethod = ''PUT'', url = u,
                             authorization = ''Bearer '' @ tok',
                             httpData = Some (UpdateData
                               \<lparr>ServiceId = serviceId d, ClientId = aptClientId d,
                                EmployeeId = employeeId d,
                                ConcurrencyCheckDigits = concurrencyCheckDigits d,
                                StartTime = startTime d, IsRunningLate = True\<rparr>)\<rparr>
                    in trace s' = trace s2 @
                         [ApiCall P (map_sum id (\<lambda>_. UpdateReply)
                                       (putRunningLate w (trace s2) P))] \<and>
                       (putRunningLate w (trace s2) P = Inr () \<longrightarrow>
                          r = \<lparr>success = True, marked_late = Some True, marked_id = Some i,
                               appointment_time = Some (startTime d),
                               message =
                                 Some ''Your barber has been notified that you're running late.'',
                               error = None\<rparr>))))"
    if g: "getToken w s = (Inr tok, s0)" for tok s0
  proof -
    define G where "G = \<lparr>httpMethod = ''GET'', url = u, authorization = ''Bearer '' @ tok,
                      httpData = (None :: payload option)\<rparr>"
    define rep where "rep = getRunningLate w (trace s0) G"
    define s1 where "s1 = s0\<lparr>trace := trace s0 @ [ApiCall G (map_sum id DetailsReply rep)]\<rparr>"
    have call: "callMeevoAPI w (getRunningLate w) DetailsReply (runningLateEndpoint loc i)
                  ''GET'' None s = (rep, s1)"
      using callMeevoAPI_granted [OF g, of "getRunningLate w" DetailsReply
               "runningLateEndpoint loc i" "''GET''" None]
      by (simp add: ep G_def rep_def s1_def)
    have a: "\<exists>rest. trace s' = trace s0 @ ApiCall G (map_sum id DetailsReply rep) # rest"
    proof (cases "\<exists>d. rep = Inr (Some d)")
      case False
      with t call have "s' = s1"
        by (auto simp: runningLate_def split: sum.splits option.splits)
      then have "trace s' = trace s0 @ ApiCall G (map_sum id DetailsReply rep) # []"
        by (simp add: s1_def)
      then show ?thesis by (rule exI [of _ "[]"])
    next
      case True
      then obtain d where d: "rep = Inr (Some d)" ..
      with t call have "putRunningLateFor w loc i d s1 = (t, s')"
        by (simp add: runningLate_def)
      from putRunningLateFor_extends [OF this] obtain new where
        "trace s' = trace s1 @ new" ..
      then have "trace s' = trace s0 @ ApiCall G (map_sum id DetailsReply rep) # new"
        by (simp add: s1_def)
      then show ?thesis by (rule exI [of _ new])
    qed
    have b: "trace s' = trace s2 @
                         [ApiCall P (map_sum id (\<lambda>_. UpdateReply)
                                       (putRunningLate w (trace s2) P))] \<and>
             (putRunningLate w (trace s2) P = Inr () \<longrightarrow>
                          r = \<lparr>success = True, marked_late = Some True, marked_id = Some i,
                               appointment_time = Some (startTime d),
                               message =
                                 Some ''Your barber has been notified that you're running late.'',
                               error = None\<rparr>)"
      if d: "rep = Inr (Some d)"
        and g2: "getToken w (s0\<lparr>trace := trace s0 @
                                  [ApiCall G (Inr (DetailsReply (Some d)))]\<rparr>) = (Inr tok', s2)"
        and P: "P = \<lparr>httpMethod = ''PUT'', url = u,
                             authorization = ''Bearer '' @ tok',
                             httpData = Some (UpdateData
                               \<lparr>ServiceId = serviceId d, ClientId = aptClientId d,
                                EmployeeId = employeeId d,
                                ConcurrencyCheckDigits = concurrencyCheckDigits d,
                                StartTime = startTime d, IsRunningLate = True\<rparr>)\<rparr>"
      for d tok' s2 P
    proof -
      from d g2 have g2': "getToken w s1 = (Inr tok', s2)" by (simp add: s1_def)
      from t call d have p: "putRunningLateFor w loc i d s1 = (t, s')"
        by (simp add: runningLate_def)
      have put: "callMeevoAPI w (putRunningLate w) (\<lambda>_. UpdateReply)
                   (runningLateEndpoint loc i) ''PUT'' (Some (UpdateData (updateBodyOf d))) s1
                 = (putRunningLate w (trace s2) P,
                    s2\<lparr>trace := trace s2 @
                       [ApiCall P (map_sum id (\<lambda>_. UpdateReply)
                                     (putRunningLate w (trace s2) P))]\<rparr>)"
        using callMeevoAPI_granted [OF g2', of "putRunningLate w" "\<lambda>_. UpdateReply"
               "runningLateEndpoint loc i" "''PUT''" "Some (UpdateData (updateBodyOf d))"]
        by (simp add: ep P updateBodyOf_def)
      from p put have s': "s' = s2\<lparr>trace := trace s2 @
                       [ApiCall P (map_sum id (\<lambda>_. UpdateReply)
                                     (putRunningLate w (trace s2) P))]\<rparr>"
        by (auto simp: putRunningLateFor_def split: sum.splits)
      from p put have "putRunningLate w (trace s2) P = Inr () \<longrightarrow>
                         t = Inr (marked i (startTime d))"
        by (auto simp: putRunningLateFor_def split: sum.splits)
      with r have "putRunningLate w (trace s2) P = Inr () \<longrightarrow>
                          r = \<lparr>success = True, marked_late = Some True, marked_id = Some i,
                               appointment_time = Some (startTime d),
                               message =
                                 Some ''Your barber has been notified that you're running late.'',
                               error = None\<rparr>"
        by (auto simp: marked_def)
      with s' show ?thesis by simp
    qed
    from a b show ?thesis
      unfolding Let_def G_def [symmetric] rep_def [symmetric] by blast
  qed
  from 1 2 3 show ?thesis by blast
qed


lemma run_direct_facts:
  "appointment_service_id directRequest = Some ''APT-42''"
  "''201664'' = (case location_id directRequest of None \<Rightarrow> ''201664''
                | Some l \<Rightarrow> if l = [] then ''201664'' else l)"
  "fst (markLate salonWorld directRequest emptyState) =
     \<lparr>success = True, marked_late = Some True, marked_id = Some ''APT-42'',
      appointment_time = Some ''T+1h'',
      message = Some ''Your barber has been notified that you're running late.'',
      error = None\<rparr>"
  "apiCalls (trace (snd (markLate salonWorld directRequest emptyState))) =
     [(\<lparr>httpMethod = ''GET'',
        url = ''https://na1pub.meevo.com/publicapi/v1/book/service/runninglate?TenantId=200507&LocationId=201664&AppointmentServiceId=APT-42'',
        authorization = ''Bearer tok'', httpData = None\<rparr>,
       Inr (DetailsReply (Some (apt ''APT-1h'' ''T+1h'' False 8)))),
      (\<lparr>httpMethod = ''PUT'',
        url = ''https://na1pub.meevo.com/publicapi/v1/book/service/runninglate?TenantId=200507&LocationId=201664&AppointmentServiceId=APT-42'',
        authorization = ''Bearer tok'',
        httpData = Some (UpdateData
          \<lparr>ServiceId = ''S-1'', ClientId = ''C-1'', EmployeeId = ''E-1'',
           ConcurrencyCheckDigits = 8, StartTime = ''T+1h'', IsRunningLate = True\<rparr>)\<rparr>,
       Inr UpdateReply)]"
  by code_simp+

theorem direct_identifier_witness:
  "appointment_service_id directRequest = Some ''APT-42'' \<and>
   success (fst (markLate salonWorld directRequest emptyState)) \<and>
   marked_id (fst (markLate salonWorld directRequest emptyState)) = Some ''APT-42'' \<and>
   apiCalls (trace (snd (markLate salonWorld directRequest emptyState))) =
     [(\<lparr>httpMethod = ''GET'',
        url = ''https://na1pub.meevo.com/publicapi/v1/book/service/runninglate?TenantId=200507&LocationId=201664&AppointmentServiceId=APT-42'',
        authorization = ''Bearer tok'', httpData = None\<rparr>,
       Inr (DetailsReply (Some (apt ''APT-1h'' ''T+1h'' False 8)))),
      (\<lparr>httpMethod = ''PUT'',
        url = ''https://na1pub.meevo.com/publicapi/v1/book/service/runninglate?TenantId=200507&LocationId=201664&AppointmentServiceId=APT-42'',
        authorization = ''Bearer tok'',
        httpData = Some (UpdateData
          \<lparr>ServiceId = ''S-1'', ClientId = ''C-1'', EmployeeId = ''E-1'',
           ConcurrencyCheckDigits = 8, StartTime = ''T+1h'', IsRunningLate = True\<rparr>)\<rparr>,
       Inr UpdateReply)]"
proof -
  let ?run = "markLate salonWorld directRequest emptyState"
  note f = run_direct_facts
  have h2: "''APT-42'' \<noteq> []" by simp
  have h4: "''https://na1pub.meevo.com/publicapi/v1/book/service/runninglate?TenantId=200507&LocationId=201664&AppointmentServiceId=APT-42''
            = ''https://na1pub.meevo.com/publicapi/v1/book/service/runninglate?TenantId=200507&LocationId=''
               @ ''201664'' @ ''&AppointmentServiceId='' @ ''APT-42''"
    by simp
  have h5: "?run = (fst ?run, snd ?run)" by simp
  note t = direct_identifier [OF f(1) h2 f(2) h4 h5]
  from t have "success (fst ?run) \<longrightarrow> marked_id (fst ?run) = Some ''APT-42''"
    by (rule conjunct2 [THEN conjunct2])
  moreover have "success (fst ?run)" by (simp add: f(3))
  ultimately have "marked_id (fst ?run) = Some ''APT-42''" by (rule mp)
  with f(1,4) \<open>success (fst ?run)\<close> show ?thesis by (intro conjI)
qed

section \<open>Freshness of the concurrency token\<close>

lemma callMeevoAPI_calls:
  assumes "callMeevoAPI w ax rec ep m d s = (r, s')"
  shows "\<exists>calls. apiCalls (trace s') = apiCalls (trace s) @ calls \<and>
           (\<forall>c rep. (c, rep) \<in> set calls \<longrightarrow> httpMethod c = m)"
  using callMeevoAPI_apiCalls [OF assms]
proof (elim disjE exE conjE)
  assume a: "apiCalls (trace s') = apiCalls (trace s)"
  show ?thesis by (rule exI [of _ "[]"]) (simp add: a)
next
  fix tok
  let ?c = "(\<lparr>httpMethod = m, url = API_URL @ ep, authorization = ''Bearer '' @ tok,
               httpData = (if d \<noteq> None \<and> m \<noteq> ''GET'' then d else None)\<rparr>,
              map_sum id rec r)"
  assume a: "apiCalls (trace s') = apiCalls (trace s) @ [?c]"
  show ?thesis by (rule exI [of _ "[?c]"]) (simp add: a)
qed


lemma nextAppointment_calls:
  assumes "nextAppointment w loc cid s = (u, s')"
  shows "\<exists>calls. apiCalls (trace s') = apiCalls (trace s) @ calls \<and>
           (\<forall>c rep. (c, rep) \<in> set calls \<longrightarrow> httpMethod c = ''GET'')"
proof (cases "callMeevoAPI w (getServices w) ServicesReply (servicesEndpoint cid loc) ''GET'' None s")
  case (Pair t s1)
  from assms Pair have "trace s' = trace s1"
    by (auto simp: nextAppointment_def Let_def split: sum.splits option.splits if_splits)
  with callMeevoAPI_calls [OF Pair] show ?thesis by simp
qed

lemma resolveUpcoming_calls:
  assumes "resolveUpcoming w loc phone email s = (u, s')"
  shows "\<exists>calls. apiCalls (trace s') = apiCalls (trace s) @ calls \<and>
           (\<forall>c rep. (c, rep) \<in> set calls \<longrightarrow> httpMethod c \<noteq> ''PUT'')"
proof (cases "callMeevoAPI w (postLookup w) ClientsReply (lookupEndpoint loc) ''POST''
             (Some (LookupData (lookupBodyOf (normalizedPhone phone) (normalizedEmail email)))) s")
  case (Pair t s1)
  from callMeevoAPI_calls [OF Pair] obtain c1 where
    c1: "apiCalls (trace s1) = apiCalls (trace s) @ c1"
        "\<forall>c rep. (c, rep) \<in> set c1 \<longrightarrow> httpMethod c = ''POST''"
    by blast
  show ?thesis
  proof (cases "\<exists>c cs. t = Inr (Some (c # cs)) \<and> clientId c \<noteq> []")
    case True
    then obtain c cs where l: "t = Inr (Some (c # cs))" "clientId c \<noteq> []" by blast
    obtain v s2 where n: "nextAppointment w loc (clientId c) s1 = (v, s2)"
      by (cases "nextAppointment w loc (clientId c) s1")
    from assms Pair l n have "s' = s2"
      by (cases v) (auto simp: resolveUpcoming_def Let_def)
    with nextAppointment_calls [OF n] obtain c2 where
      c2: "apiCalls (trace s') = apiCalls (trace s1) @ c2"
          "\<forall>c rep. (c, rep) \<in> set c2 \<longrightarrow> httpMethod c = ''GET''"
      by blast
    have "apiCalls (trace s') = apiCalls (trace s) @ (c1 @ c2)"
      using c1(1) c2(1) by simp
    moreover have "\<forall>c rep. (c, rep) \<in> set (c1 @ c2) \<longrightarrow> httpMethod c \<noteq> ''PUT''"
      using c1(2) c2(2) by fastforce
    ultimately show ?thesis by blast
  next
    case False
    with assms Pair have "s' = s1"
      by (auto simp: resolveUpcoming_def Let_def split: sum.splits option.splits list.splits if_splits)
    moreover have "\<forall>c rep. (c, rep) \<in> set c1 \<longrightarrow> httpMethod c \<noteq> ''PUT''"
      using c1(2) by fastforce
    ultimately show ?thesis using c1(1) by blast
  qed
qed


lemma markLateTry_stages:
  assumes "markLateTry w req s = (t, s')"
  shows "\<exists>s1 pre. apiCalls (trace s1) = apiCalls (trace s) @ pre \<and>
          (\<forall>c rep. (c, rep) \<in> set pre \<longrightarrow> httpMethod c \<noteq> ''PUT'') \<and>
          (s' = s1 \<or> (\<exists>i. runningLate w (locationOf req) i s1 = (t, s')))"
proof (cases "needsLookup req")
  case True
  let ?loc = "locationOf req"
  obtain u s1 where n: "resolveUpcoming w ?loc (client_phone req) (client_email req) s = (u, s1)"
    by (cases "resolveUpcoming w ?loc (client_phone req) (client_email req) s")
  from resolveUpcoming_calls [OF n] obtain pre where
    p: "apiCalls (trace s1) = apiCalls (trace s) @ pre"
       "\<forall>c rep. (c, rep) \<in> set pre \<longrightarrow> httpMethod c \<noteq> ''PUT''"
    by blast
  from assms True n have "s' = s1 \<or> (\<exists>i. runningLate w ?loc i s1 = (t, s'))"
    by (cases u) (auto simp: markLateTry_def Let_def split: option.splits if_splits)
  with p show ?thesis by blast
next
  case False
  with assms have "s' = s \<or> (\<exists>i. runningLate w (locationOf req) i s = (t, s'))"
    by (auto simp: markLateTry_def Let_def split: option.splits if_splits)
  moreover have "apiCalls (trace s) = apiCalls (trace s) @ []" by simp
  moreover have "\<forall>c rep. (c, rep) \<in> set [] \<longrightarrow> httpMethod c \<noteq> ''PUT''" by simp
  ultimately show ?thesis by blast
qed

text \<open>
  In the current handler every write is the last request of the run and follows at once
  the read of the same resource, whose details give its payload.
\<close>

lemma markLate_reads_before_write:
  assumes "markLate w req s = (r, s')"
    and "apiCalls (trace s') = apiCalls (trace s) @ calls"
    and "(c, rep) \<in> set calls"
    and "httpMethod c = ''PUT''"
  shows "\<exists>pre tok tok' ep d.
           calls = pre @ [(getConfig tok ep, Inr (DetailsReply (Some d))), (c, rep)] \<and>
           c = putConfig tok' ep (updateBodyOf d) \<and>
           ConcurrencyCheckDigits (updateBodyOf d) = concurrencyCheckDigits d"
proof -
  obtain t where t: "markLateTry w req s = (t, s')"
    using assms(1) by (cases "markLateTry w req s") (auto simp: markLate_def split: sum.splits)
  let ?loc = "locationOf req"
  from markLateTry_stages [OF t] obtain s1 pre where
    p: "apiCalls (trace s1) = apiCalls (trace s) @ pre"
       "\<forall>c rep. (c, rep) \<in> set pre \<longrightarrow> httpMethod c \<noteq> ''PUT''"
       "s' = s1 \<or> (\<exists>i. runningLate w ?loc i s1 = (t, s'))"
    by blast
  from p(3) show ?thesis
  proof
    assume "s' = s1"
    with p(1) assms(2) have "calls = pre" by simp
    with p(2) assms(3,4) show ?thesis by blast
  next
    assume "\<exists>i. runningLate w ?loc i s1 = (t, s')"
    then obtain i where "runningLate w ?loc i s1 = (t, s')" ..
    from runningLate_calls [OF this] obtain late where
      l: "apiCalls (trace s') = apiCalls (trace s1) @ late"
      and k: "(late = [] \<and> isl t) \<or>
      (\<exists>tok rep. late = [(getConfig tok (runningLateEndpoint ?loc i), rep)] \<and>
         rep \<noteq> Inr UpdateReply \<and>
         (isl t \<or> t = Inr (failure ''Could not get appointment details''))) \<or>
      (\<exists>tok tok' d e. t = Inl e \<and> late =
         [(getConfig tok (runningLateEndpoint ?loc i), Inr (DetailsReply (Some d))),
          (putConfig tok' (runningLateEndpoint ?loc i) (updateBodyOf d), Inl e)]) \<or>
      (\<exists>tok tok' d. t = Inr (marked i (startTime d)) \<and> late =
         [(getConfig tok (runningLateEndpoint ?loc i), Inr (DetailsReply (Some d))),
          (putConfig tok' (runningLateEndpoint ?loc i) (updateBodyOf d), Inr UpdateReply)])"
      by blast
    from l p(1) assms(2) have c: "calls = pre @ late" by simp
    with assms(3,4) p(2) have m: "(c, rep) \<in> set late" by auto
    have g: "httpMethod (getConfig tok ep) \<noteq> ''PUT''" for tok ep
      by (simp add: getConfig_def)
    let ?ep = "runningLateEndpoint ?loc i"
    from k have "late = [] \<or> (\<exists>tok rep'. late = [(getConfig tok ?ep, rep')]) \<or>
      (\<exists>tok tok' d rep'. late = [(getConfig tok ?ep, Inr (DetailsReply (Some d))),
                                 (putConfig tok' ?ep (updateBodyOf d), rep')])"
      by blast
    then have "\<exists>tok tok' d. late = [(getConfig tok ?ep, Inr (DetailsReply (Some d))), (c, rep)] \<and>
          c = putConfig tok' ?ep (updateBodyOf d)"
    proof (elim disjE exE)
      assume "late = []"
      with m show ?thesis by simp
    next
      fix tok rep'
      assume "late = [(getConfig tok ?ep, rep')]"
      with m assms(4) g show ?thesis by auto
    next
      fix tok tok' d rep'
      assume "late = [(getConfig tok ?ep, Inr (DetailsReply (Some d))),
                      (putConfig tok' ?ep (updateBodyOf d), rep')]"
      with m assms(4) g show ?thesis by auto
    qed
    then obtain tok tok' d where
      "late = [(getConfig tok (runningLateEndpoint ?loc i), Inr (DetailsReply (Some d))), (c, rep)]"
      "c = putConfig tok' (runningLateEndpoint ?loc i) (updateBodyOf d)"
      by blast
    with c have "calls = pre @ [(getConfig tok (runningLateEndpoint ?loc i),
                                 Inr (DetailsReply (Some d))), (c, rep)] \<and>
           c = putConfig tok' (runningLateEndpoint ?loc i) (updateBodyOf d) \<and>
           ConcurrencyCheckDigits (updateBodyOf d) = concurrencyCheckDigits d"
      by (simp add: updateBodyOf_def)
    then show ?thesis by blast
  qed
qed

text \<open>
  C2 fails in the earlier handler: for a request resolved by phone it sends the write
  without reading the details, and the write carries the concurrency token 7 of the
  listing although the running-late read would return 8.
\<close>

theorem earlier_handler_stale_token:
  "apiCalls (trace (snd (markLate2 salonWorld phoneRequest emptyState))) =
     [(getConfig ''tok'' (clientsEndpoint LOCATION_ID), Inr (ClientsReply (Some [anna]))),
      (getConfig ''tok'' (servicesEndpoint ''C-1'' LOCATION_ID),
       Inr (ServicesReply (Some salonApts))),
      (putConfig ''tok'' (runningLateEndpoint LOCATION_ID ''APT-1h'')
         (updateBodyOf (apt ''APT-1h'' ''T+1h'' False 7)),
       Inr UpdateReply)] \<and>
   ConcurrencyCheckDigits (updateBodyOf (apt ''APT-1h'' ''T+1h'' False 7)) = 7 \<and>
   getRunningLate salonWorld (trace (snd (markLate2 salonWorld phoneRequest emptyState)))
       (getConfig ''tok'' (runningLateEndpoint LOCATION_ID ''APT-1h''))
     = Inr (Some (apt ''APT-1h'' ''T+1h'' False 8)) \<and>
   fst (markLate2 salonWorld phoneRequest emptyState) = marked ''APT-1h'' ''T+1h''"
  by code_simp

section \<open>Filter of the client lookup\<close>

lemma slice_last10_empty: "slice (- 10) ds = [] \<longleftrightarrow> ds = []"
  by (cases ds) (simp_all add: slice_last10)

lemma last10_length: "length ds \<le> length ds - 10 \<longleftrightarrow> ds = []"
  by (cases ds) auto

lemma toLowerCase_empty: "toLowerCase e = [] \<longleftrightarrow> e = []"
  by (simp add: toLowerCase_def)

lemma find_first:
  "(\<forall>b\<in>set pre. \<not> P b) \<Longrightarrow> P c \<Longrightarrow> find P (pre @ c # post) = Some c"
  by (induction pre) simp_all

lemma find_none: "(\<forall>b\<in>set cs. \<not> P b) \<Longrightarrow> find P cs = None"
  by (induction cs) simp_all

lemma needsLookup_iff:
  "needsLookup req \<longleftrightarrow>
     (appointment_service_id req = None \<or> appointment_service_id req = Some []) \<and>
     ((\<exists>p. client_phone req = Some p \<and> p \<noteq> []) \<or>
      (\<exists>e. client_email req = Some e \<and> e \<noteq> []))"
  by (auto simp: needsLookup_def truthy_def split: option.splits)

lemma locationOf_eq:
  "locationOf req = (case location_id req of None \<Rightarrow> ''201664''
                     | Some l \<Rightarrow> if l = [] then ''201664'' else l)"
  by (simp add: locationOf_def LOCATION_ID_def split: option.splits)

text \<open>The filter in terms of the digits of the phone number.\<close>

lemma lookupBodyOf_digits:
  assumes "digits = (case phone of None \<Rightarrow> [] | Some p \<Rightarrow> filter isDigit p)"
  shows "digits \<noteq> [] \<Longrightarrow>
           lookupBodyOf (normalizedPhone phone) (normalizedEmail email) =
             \<lparr>PhoneNumbers = Some [drop (length digits - 10) digits], EmailIds = None\<rparr>"
    and "digits = [] \<Longrightarrow> email = Some e \<Longrightarrow> e \<noteq> [] \<Longrightarrow>
           lookupBodyOf (normalizedPhone phone) (normalizedEmail email) =
             \<lparr>PhoneNumbers = None, EmailIds = Some [toLowerCase e]\<rparr>"
proof -
  have np: "normalizedPhone phone = (case phone of None \<Rightarrow> None
              | Some p \<Rightarrow> Some (drop (length digits - 10) digits))"
    using assms
    by (cases phone)
       (simp_all add: normalizedPhone_def replace_nondigits_def slice_last10)
  show "lookupBodyOf (normalizedPhone phone) (normalizedEmail email) =
             \<lparr>PhoneNumbers = Some [drop (length digits - 10) digits], EmailIds = None\<rparr>"
    if "digits \<noteq> []"
    using that assms np by (cases phone) (simp_all add: lookupBodyOf_def truthy_def last10_length)
  show "lookupBodyOf (normalizedPhone phone) (normalizedEmail email) =
             \<lparr>PhoneNumbers = None, EmailIds = Some [toLowerCase e]\<rparr>"
    if "digits = []" "email = Some e" "e \<noteq> []"
    using that np
    by (cases phone)
       (simp_all add: lookupBodyOf_def truthy_def normalizedEmail_def toLowerCase_empty)
qed

text \<open>The predicate of the search in the same terms.\<close>

lemma matchesClient_digits:
  assumes "digits = (case phone of None \<Rightarrow> [] | Some p \<Rightarrow> filter isDigit p)"
  shows "matchesClient (normalizedPhone phone) (normalizedEmail email) b \<longleftrightarrow>
     (digits \<noteq> [] \<and>
      (let own = filter isDigit
                   (case primaryPhoneNumber b of None \<Rightarrow> [] | Some q \<Rightarrow> q)
       in drop (length own - 10) own = drop (length digits - 10) digits)) \<or>
     (\<exists>e a. email = Some e \<and> e \<noteq> [] \<and> emailAddress b = Some a \<and>
            toLowerCase a = toLowerCase e)"
proof -
  have 1: "truthy (normalizedPhone phone) \<and>
       Some (slice (- 10) (replace_nondigits
               (case primaryPhoneNumber b of None \<Rightarrow> [] | Some p \<Rightarrow> p))) = normalizedPhone phone
      \<longleftrightarrow> (digits \<noteq> [] \<and>
      (let own = filter isDigit
                   (case primaryPhoneNumber b of None \<Rightarrow> [] | Some q \<Rightarrow> q)
       in drop (length own - 10) own = drop (length digits - 10) digits))"
    using assms
    by (cases phone)
       (auto simp: truthy_def normalizedPhone_def replace_nondigits_def slice_last10 Let_def last10_length)
  have 2: "truthy (normalizedEmail email) \<and>
         map_option toLowerCase (emailAddress b) = normalizedEmail email
      \<longleftrightarrow> (\<exists>e a. email = Some e \<and> e \<noteq> [] \<and> emailAddress b = Some a \<and>
            toLowerCase a = toLowerCase e)"
    by (cases email; cases "emailAddress b")
       (auto simp: truthy_def normalizedEmail_def toLowerCase_empty)
  show ?thesis unfolding matchesClient_def using 1 2 by blast
qed

text \<open>Each block only adds calls to the list.\<close>

lemma callMeevoAPI_extends:
  "callMeevoAPI w ax rec ep m d s = (r, s') \<Longrightarrow> \<exists>new. trace s' = trace s @ new"
  using callMeevoAPI_ran [of w ax rec ep m d s r s'] by (auto simp: ranFrom_def)

lemma runningLate_extends:
  "runningLate w loc i s = (r, s') \<Longrightarrow> \<exists>new. trace s' = trace s @ new"
  using runningLate_ran [of w loc i s r s'] by (auto simp: ranFrom_def)

lemma runningLate2_extends:
  assumes "runningLate2 w loc i dt s = (r, s')"
  shows "\<exists>new. trace s' = trace s @ new"
proof (cases dt)
  case (Some d)
  with assms have "putRunningLateFor w loc i d s = (r, s')" by (simp add: runningLate2_def)
  then show ?thesis by (rule putRunningLateFor_extends)
next
  case None
  obtain t s1 where g: "callMeevoAPI w (getRunningLate w) DetailsReply
                  (runningLateEndpoint loc i) ''GET'' None s = (t, s1)"
    by (cases "callMeevoAPI w (getRunningLate w) DetailsReply
                  (runningLateEndpoint loc i) ''GET'' None s")
  from callMeevoAPI_extends [OF g] obtain n1 where n1: "trace s1 = trace s @ n1" ..
  from assms None g have "s' = s1 \<or> (\<exists>d. putRunningLateFor w loc i d s1 = (r, s'))"
    by (auto simp: runningLate2_def split: sum.splits option.splits)
  then show ?thesis
  proof
    assume "s' = s1"
    with n1 have "trace s' = trace s @ n1" by simp
    then show ?thesis by (rule exI [of _ n1])
  next
    assume "\<exists>d. putRunningLateFor w loc i d s1 = (r, s')"
    then obtain d where "putRunningLateFor w loc i d s1 = (r, s')" ..
    from putRunningLateFor_extends [OF this] obtain n2 where "trace s' = trace s1 @ n2" ..
    with n1 have "trace s' = trace s @ (n1 @ n2)" by simp
    then show ?thesis by (rule exI [of _ "n1 @ n2"])
  qed
qed

lemma nextAppointment_extends:
  assumes "nextAppointment w loc cid s = (v, s')"
  shows "\<exists>new. trace s' = trace s @ new"
  using nextAppointment_ran [OF assms] by (auto simp: ranFrom_def)


lemma nextAppointment_after_call:
  assumes "callMeevoAPI w (getServices w) ServicesReply (servicesEndpoint cid loc) ''GET'' None s
             = (rep, s1)"
    and "nextAppointment w loc cid s = (v, s')"
  shows "trace s' = trace s1"
  using assms
  by (auto simp: nextAppointment_def Let_def split: sum.splits option.splits if_splits)

lemma markLateTry_after_resolve:
  assumes "needsLookup req"
    and "resolveUpcoming w (locationOf req) (client_phone req) (client_email req) s = (u, s2)"
    and "markLateTry w req s = (t, s')"
  shows "\<exists>new. trace s' = trace s2 @ new"
proof -
  from assms have "s' = s2 \<or> (\<exists>i. runningLate w (locationOf req) i s2 = (t, s'))"
    by (cases u) (auto simp: markLateTry_def Let_def split: option.splits if_splits)
  then show ?thesis
  proof
    assume "s' = s2"
    then have "trace s' = trace s2 @ []" by simp
    then show ?thesis by (rule exI [of _ "[]"])
  next
    assume "\<exists>i. runningLate w (locationOf req) i s2 = (t, s')"
    then obtain i where "runningLate w (locationOf req) i s2 = (t, s')" ..
    then show ?thesis by (rule runningLate_extends)
  qed
qed

lemma markLateTry2_after_resolve:
  assumes "needsLookup req"
    and "resolveUpcoming2 w (locationOf req) (client_phone req) (client_email req) s = (u, s2)"
    and "markLateTry2 w req s = (t, s')"
  shows "\<exists>new. trace s' = trace s2 @ new"
proof -
  from assms have "s' = s2 \<or> (\<exists>i dt. runningLate2 w (locationOf req) i dt s2 = (t, s'))"
    by (cases u) (auto simp: markLateTry2_def Let_def split: option.splits if_splits)
  then show ?thesis
  proof
    assume "s' = s2"
    then have "trace s' = trace s2 @ []" by simp
    then show ?thesis by (rule exI [of _ "[]"])
  next
    assume "\<exists>i dt. runningLate2 w (locationOf req) i dt s2 = (t, s')"
    then obtain i dt where "runningLate2 w (locationOf req) i dt s2 = (t, s')" by blast
    then show ?thesis by (rule runningLate2_extends)
  qed
qed

lemma snd_markLate: "snd (markLate w req s) = snd (markLateTry w req s)"
  by (cases "markLateTry w req s") (auto simp: markLate_def split: sum.splits)

lemma snd_markLate2: "snd (markLate2 w req s) = snd (markLateTry2 w req s)"
  by (cases "markLateTry2 w req s") (auto simp: markLate2_def split: sum.splits)

text \<open>The current handler: the lookup follows the token at once.\<close>

lemma markLate_sends_lookup:
  assumes "needsLookup req" and "getToken w s = (Inr tok, s0)"
    and "C = \<lparr>httpMethod = ''POST'',
              url = API_URL @ lookupEndpoint (locationOf req),
              authorization = ''Bearer '' @ tok,
              httpData = Some (LookupData (lookupBodyOf (normalizedPhone (client_phone req))
                                                        (normalizedEmail (client_email req))))\<rparr>"
  shows "\<exists>rest. trace (snd (markLate w req s)) =
           trace s0 @ ApiCall C (map_sum id ClientsReply (postLookup w (trace s0) C)) # rest"
proof -
  let ?loc = "locationOf req"
  let ?b = "lookupBodyOf (normalizedPhone (client_phone req)) (normalizedEmail (client_email req))"
  define s1 where "s1 = s0\<lparr>trace := trace s0 @
                     [ApiCall C (map_sum id ClientsReply (postLookup w (trace s0) C))]\<rparr>"
  have call: "callMeevoAPI w (postLookup w) ClientsReply (lookupEndpoint ?loc) ''POST''
                (Some (LookupData ?b)) s = (postLookup w (trace s0) C, s1)"
    using callMeevoAPI_granted [OF assms(2), of "postLookup w" ClientsReply
             "lookupEndpoint ?loc" "''POST''" "Some (LookupData ?b)"]
    by (simp add: assms(3) s1_def)
  obtain u s2 where res: "resolveUpcoming w ?loc (client_phone req) (client_email req) s = (u, s2)"
    by (cases "resolveUpcoming w ?loc (client_phone req) (client_email req) s")
  from res call have "s2 = s1 \<or> (\<exists>cid v. nextAppointment w ?loc cid s1 = (v, s2))"
    by (auto simp: resolveUpcoming_def Let_def
             split: sum.splits option.splits list.splits if_splits prod.splits outcome.splits)
  then have "\<exists>n1. trace s2 = trace s1 @ n1"
  proof
    assume "s2 = s1"
    then have "trace s2 = trace s1 @ []" by simp
    then show ?thesis by (rule exI [of _ "[]"])
  next
    assume "\<exists>cid v. nextAppointment w ?loc cid s1 = (v, s2)"
    then obtain cid v where "nextAppointment w ?loc cid s1 = (v, s2)" by blast
    then show ?thesis by (rule nextAppointment_extends)
  qed
  then obtain n1 where n1: "trace s2 = trace s1 @ n1" ..
  obtain t s' where tr: "markLateTry w req s = (t, s')" by (cases "markLateTry w req s")
  from markLateTry_after_resolve [OF assms(1) res tr] obtain n2 where
    n2: "trace s' = trace s2 @ n2" ..
  from tr have "snd (markLate w req s) = s'" by (simp add: snd_markLate)
  with n1 n2 have "trace (snd (markLate w req s)) =
      trace s0 @ ApiCall C (map_sum id ClientsReply (postLookup w (trace s0) C)) # (n1 @ n2)"
    by (simp add: s1_def)
  then show ?thesis by (rule exI [of _ "n1 @ n2"])
qed


text \<open>The earlier handler: the unfiltered read, then the listing of the first match.\<close>

lemma markLate2_reads_clients:
  assumes "needsLookup req" and "getToken w s = (Inr tok, s0)"
    and "G = \<lparr>httpMethod = ''GET'', url = API_URL @ clientsEndpoint (locationOf req),
              authorization = ''Bearer '' @ tok, httpData = None\<rparr>"
    and "s1 = s0\<lparr>trace := trace s0 @
                  [ApiCall G (map_sum id ClientsReply (getClients w (trace s0) G))]\<rparr>"
  shows "callMeevoAPI w (getClients w) ClientsReply (clientsEndpoint (locationOf req)) ''GET''
           None s = (getClients w (trace s0) G, s1)"
    and "\<exists>rest. trace (snd (markLate2 w req s)) =
           trace s0 @ ApiCall G (map_sum id ClientsReply (getClients w (trace s0) G)) # rest"
proof -
  let ?loc = "locationOf req"
  show call: "callMeevoAPI w (getClients w) ClientsReply (clientsEndpoint ?loc) ''GET''
           None s = (getClients w (trace s0) G, s1)"
    using callMeevoAPI_granted [OF assms(2), of "getClients w" ClientsReply
             "clientsEndpoint ?loc" "''GET''" None]
    by (simp add: assms(3,4))
  obtain u s2 where res: "resolveUpcoming2 w ?loc (client_phone req) (client_email req) s = (u, s2)"
    by (cases "resolveUpcoming2 w ?loc (client_phone req) (client_email req) s")
  from res call have "s2 = s1 \<or> (\<exists>cid v. nextAppointment w ?loc cid s1 = (v, s2))"
    by (auto simp: resolveUpcoming2_def Let_def
             split: sum.splits option.splits list.splits if_splits prod.splits outcome.splits)
  then have "\<exists>n1. trace s2 = trace s1 @ n1"
  proof
    assume "s2 = s1"
    then have "trace s2 = trace s1 @ []" by simp
    then show ?thesis by (rule exI [of _ "[]"])
  next
    assume "\<exists>cid v. nextAppointment w ?loc cid s1 = (v, s2)"
    then obtain cid v where "nextAppointment w ?loc cid s1 = (v, s2)" by blast
    then show ?thesis by (rule nextAppointment_extends)
  qed
  then obtain n1 where n1: "trace s2 = trace s1 @ n1" ..
  obtain t s' where tr: "markLateTry2 w req s = (t, s')" by (cases "markLateTry2 w req s")
  from markLateTry2_after_resolve [OF assms(1) res tr] obtain n2 where
    n2: "trace s' = trace s2 @ n2" ..
  from tr have "snd (markLate2 w req s) = s'" by (simp add: snd_markLate2)
  with n1 n2 have "trace (snd (markLate2 w req s)) =
      trace s0 @ ApiCall G (map_sum id ClientsReply (getClients w (trace s0) G)) # (n1 @ n2)"
    by (simp add: assms(4))
  then show "\<exists>rest. trace (snd (markLate2 w req s)) =
           trace s0 @ ApiCall G (map_sum id ClientsReply (getClients w (trace s0) G)) # rest"
    by (rule exI [of _ "n1 @ n2"])
qed

lemma markLate2_lists_match:
  assumes "needsLookup req"
    and "callMeevoAPI w (getClients w) ClientsReply (clientsEndpoint (locationOf req)) ''GET''
           None s = (Inr (Some cs), s1)"
    and "find (matchesClient (normalizedPhone (client_phone req))
                             (normalizedEmail (client_email req))) cs = Some c"
    and "clientId c \<noteq> []"
    and "getToken w s1 = (Inr tok', s2)"
    and "S = \<lparr>httpMethod = ''GET'',
              url = API_URL @ servicesEndpoint (clientId c) (locationOf req),
              authorization = ''Bearer '' @ tok', httpData = None\<rparr>"
  shows "\<exists>rest. trace (snd (markLate2 w req s)) =
           trace s2 @ ApiCall S (map_sum id ServicesReply (getServices w (trace s2) S)) # rest"
proof -
  let ?loc = "locationOf req"
  define s3 where "s3 = s2\<lparr>trace := trace s2 @
                     [ApiCall S (map_sum id ServicesReply (getServices w (trace s2) S))]\<rparr>"
  have call: "callMeevoAPI w (getServices w) ServicesReply (servicesEndpoint (clientId c) ?loc)
                ''GET'' None s1 = (getServices w (trace s2) S, s3)"
    using callMeevoAPI_granted [OF assms(5), of "getServices w" ServicesReply
             "servicesEndpoint (clientId c) ?loc" "''GET''" None]
    by (simp add: assms(6) s3_def)
  obtain v s4 where nx: "nextAppointment w ?loc (clientId c) s1 = (v, s4)"
    by (cases "nextAppointment w ?loc (clientId c) s1")
  from nextAppointment_after_call [OF call nx] have t4: "trace s4 = trace s3" .
  obtain u where res: "resolveUpcoming2 w ?loc (client_phone req) (client_email req) s = (u, s4)"
    using assms(2,3,4) nx
    by (cases v) (simp_all add: resolveUpcoming2_def Let_def)
  obtain t s' where tr: "markLateTry2 w req s = (t, s')" by (cases "markLateTry2 w req s")
  from markLateTry2_after_resolve [OF assms(1) res tr] obtain n2 where
    n2: "trace s' = trace s4 @ n2" ..
  from tr have "snd (markLate2 w req s) = s'" by (simp add: snd_markLate2)
  with t4 n2 have "trace (snd (markLate2 w req s)) =
      trace s2 @ ApiCall S (map_sum id ServicesReply (getServices w (trace s2) S)) # n2"
    by (simp add: s3_def)
  then show ?thesis by (rule exI [of _ n2])
qed

lemma markLate2_no_match:
  assumes "needsLookup req"
    and "callMeevoAPI w (getClients w) ClientsReply (clientsEndpoint (locationOf req)) ''GET''
           None s = (Inr (Some cs), s1)"
    and "find (matchesClient (normalizedPhone (client_phone req))
                             (normalizedEmail (client_email req))) cs = None"
  shows "markLate2 w req s =
           (\<lparr>success = False, marked_late = None, marked_id = None,
             appointment_time = None, message = None,
             error = Some ''No client found with that phone number or email''\<rparr>, s1)"
  using assms
  by (simp add: markLate2_def markLateTry2_def resolveUpcoming2_def failure_def Let_def)


text \<open>
  C6, as the code has it, for a request without an appointment identifier that holds a
  phone number or an email address, once the token is granted. In the current handler the
  call that follows the token is the client lookup, a POST to \<open>/clients/lookup\<close>: when the
  phone number has a digit its filter is the phone number alone, cut to its last ten
  digits, whatever the email address; when the phone number has no digit and the email
  address is not empty, its filter is the lower-cased email address alone. The earlier
  handler sends no filter: the call that follows the token is a GET of the whole client
  list, and the handler goes on with the first client of that list whose last ten phone
  digits are those of the request, when the request has a digit, or whose lower-cased
  email address is that of the request; it lists the appointments of that client, and
  answers that no client was found when the list holds no such client.
\<close>

theorem lookup_filter:
  assumes "appointment_service_id req = None \<or> appointment_service_id req = Some []"
    and "(\<exists>p. client_phone req = Some p \<and> p \<noteq> []) \<or>
         (\<exists>e. client_email req = Some e \<and> e \<noteq> [])"
    and "loc = (case location_id req of None \<Rightarrow> ''201664''
                | Some l \<Rightarrow> if l = [] then ''201664'' else l)"
    and "digits = (case client_phone req of None \<Rightarrow> [] | Some p \<Rightarrow> filter isDigit p)"
    and "getToken w s = (Inr tok, s0)"
  shows "(digits \<noteq> [] \<longrightarrow>
            (let C = \<lparr>httpMethod = ''POST'',
                      url = ''https://na1pub.meevo.com/publicapi/v1/clients/lookup?TenantId=200507&LocationId='' @ loc,
                      authorization = ''Bearer '' @ tok,
                      httpData = Some (LookupData
                        \<lparr>PhoneNumbers = Some [drop (length digits - 10) digits],
                         EmailIds = None\<rparr>)\<rparr>
             in \<exists>rest. trace (snd (markLate w req s)) =
                  trace s0 @ ApiCall C (map_sum id ClientsReply (postLookup w (trace s0) C)) # rest))
       \<and> (digits = [] \<longrightarrow>
            (\<forall>e. client_email req = Some e \<and> e \<noteq> [] \<longrightarrow>
               (let C = \<lparr>httpMethod = ''POST'',
                         url = ''https://na1pub.meevo.com/publicapi/v1/clients/lookup?TenantId=200507&LocationId='' @ loc,
                         authorization = ''Bearer '' @ tok,
                         httpData = Some (LookupData
                           \<lparr>PhoneNumbers = None, EmailIds = Some [toLowerCase e]\<rparr>)\<rparr>
                in \<exists>rest. trace (snd (markLate w req s)) =
                     trace s0 @
                     ApiCall C (map_sum id ClientsReply (postLookup w (trace s0) C)) # rest)))
       \<and> (let G = \<lparr>httpMethod = ''GET'',
                     url = ''https://na1pub.meevo.com/publicapi/v1/clients?TenantId=200507&LocationId='' @ loc,
                     authorization = ''Bearer '' @ tok, httpData = None\<rparr>;
               s1 = s0\<lparr>trace := trace s0 @
                         [ApiCall G (map_sum id ClientsReply (getClients w (trace s0) G))]\<rparr>;
               M = (\<lambda>b. (digits \<noteq> [] \<and>
                          (let own = filter isDigit
                                       (case primaryPhoneNumber b of None \<Rightarrow> [] | Some q \<Rightarrow> q)
                           in drop (length own - 10) own = drop (length digits - 10) digits)) \<or>
                         (\<exists>e a. client_email req = Some e \<and> e \<noteq> [] \<and>
                                emailAddress b = Some a \<and> toLowerCase a = toLowerCase e))
           in (\<exists>rest. trace (snd (markLate2 w req s)) =
                 trace s0 @ ApiCall G (map_sum id ClientsReply (getClients w (trace s0) G)) # rest)
            \<and> (\<forall>pre c post tok' s2.
                  getClients w (trace s0) G = Inr (Some (pre @ c # post)) \<and>
                  (\<forall>b\<in>set pre. \<not> M b) \<and> M c \<and> clientId c \<noteq> [] \<and>
                  getToken w s1 = (Inr tok', s2) \<longrightarrow>
                  (let S = \<lparr>httpMethod = ''GET'',
                            url = ''https://na1pub.meevo.com/publicapi/v1/book/client/''
                                    @ clientId c @ ''/services?TenantId=200507&LocationId='' @ loc,
                            authorization = ''Bearer '' @ tok', httpData = None\<rparr>
                   in \<exists>rest. trace (snd (markLate2 w req s)) =
                        trace s2 @
                        ApiCall S (map_sum id ServicesReply (getServices w (trace s2) S)) # rest))
            \<and> (\<forall>cs. getClients w (trace s0) G = Inr (Some cs) \<and> (\<forall>b\<in>set cs. \<not> M b) \<longrightarrow>
                  markLate2 w req s =
                    (\<lparr>success = False, marked_late = None, marked_id = None,
                      appointment_time = None, message = None,
                      error = Some ''No client found with that phone number or email''\<rparr>, s1)))"
proof -
  let ?np = "normalizedPhone (client_phone req)"
  let ?ne = "normalizedEmail (client_email req)"
  from assms(1,2) have n: "needsLookup req" by (simp add: needsLookup_iff)
  have loc: "locationOf req = loc" using assms(3) by (simp add: locationOf_eq)
  have ul: "API_URL @ lookupEndpoint loc =
      ''https://na1pub.meevo.com/publicapi/v1/clients/lookup?TenantId=200507&LocationId='' @ loc"
    by (simp add: API_URL_def lookupEndpoint_def TENANT_ID_def)
  have uc: "API_URL @ clientsEndpoint loc =
      ''https://na1pub.meevo.com/publicapi/v1/clients?TenantId=200507&LocationId='' @ loc"
    by (simp add: API_URL_def clientsEndpoint_def TENANT_ID_def)
  have us: "API_URL @ servicesEndpoint cid loc =
      ''https://na1pub.meevo.com/publicapi/v1/book/client/''
         @ cid @ ''/services?TenantId=200507&LocationId='' @ loc" for cid
    by (simp add: API_URL_def servicesEndpoint_def TENANT_ID_def)
  note sent = markLate_sends_lookup [OF n assms(5) refl, unfolded loc ul]
  have A: "digits \<noteq> [] \<longrightarrow>
            (let C = \<lparr>httpMethod = ''POST'',
                      url = ''https://na1pub.meevo.com/publicapi/v1/clients/lookup?TenantId=200507&LocationId='' @ loc,
                      authorization = ''Bearer '' @ tok,
                      httpData = Some (LookupData
                        \<lparr>PhoneNumbers = Some [drop (length digits - 10) digits],
                         EmailIds = None\<rparr>)\<rparr>
             in \<exists>rest. trace (snd (markLate w req s)) =
                  trace s0 @ ApiCall C (map_sum id ClientsReply (postLookup w (trace s0) C)) # rest)"
  proof
    assume "digits \<noteq> []"
    from lookupBodyOf_digits(1) [OF assms(4) this, of "client_email req"]
    have "lookupBodyOf ?np ?ne =
            \<lparr>PhoneNumbers = Some [drop (length digits - 10) digits], EmailIds = None\<rparr>" .
    with sent show "let C = \<lparr>httpMethod = ''POST'',
                      url = ''https://na1pub.meevo.com/publicapi/v1/clients/lookup?TenantId=200507&LocationId='' @ loc,
                      authorization = ''Bearer '' @ tok,
                      httpData = Some (LookupData
                        \<lparr>PhoneNumbers = Some [drop (length digits - 10) digits],
                         EmailIds = None\<rparr>)\<rparr>
             in \<exists>rest. trace (snd (markLate w req s)) =
                  trace s0 @ ApiCall C (map_sum id ClientsReply (postLookup w (trace s0) C)) # rest"
      by (simp only: Let_def)
  qed
  have B: "digits = [] \<longrightarrow>
            (\<forall>e. client_email req = Some e \<and> e \<noteq> [] \<longrightarrow>
               (let C = \<lparr>httpMethod = ''POST'',
                         url = ''https://na1pub.meevo.com/publicapi/v1/clients/lookup?TenantId=200507&LocationId='' @ loc,
                         authorization = ''Bearer '' @ tok,
                         httpData = Some (LookupData
                           \<lparr>PhoneNumbers = None, EmailIds = Some [toLowerCase e]\<rparr>)\<rparr>
                in \<exists>rest. trace (snd (markLate w req s)) =
                     trace s0 @
                     ApiCall C (map_sum id ClientsReply (postLookup w (trace s0) C)) # rest))"
  proof (intro impI allI, elim conjE)
    fix e
    assume "digits = []" "client_email req = Some e" "e \<noteq> []"
    from lookupBodyOf_digits(2) [OF assms(4) this]
    have "lookupBodyOf ?np ?ne = \<lparr>PhoneNumbers = None, EmailIds = Some [toLowerCase e]\<rparr>" .
    with sent show "let C = \<lparr>httpMethod = ''POST'',
                         url = ''https://na1pub.meevo.com/publicapi/v1/clients/lookup?TenantId=200507&LocationId='' @ loc,
                         authorization = ''Bearer '' @ tok,
                         httpData = Some (LookupData
                           \<lparr>PhoneNumbers = None, EmailIds = Some [toLowerCase e]\<rparr>)\<rparr>
                in \<exists>rest. trace (snd (markLate w req s)) =
                     trace s0 @
                     ApiCall C (map_sum id ClientsReply (postLookup w (trace s0) C)) # rest"
      by (simp only: Let_def)
  qed
  define G where "G = \<lparr>httpMethod = ''GET'',
                     url = ''https://na1pub.meevo.com/publicapi/v1/clients?TenantId=200507&LocationId='' @ loc,
                     authorization = ''Bearer '' @ tok, httpData = (None :: payload option)\<rparr>"
  define s1 where "s1 = s0\<lparr>trace := trace s0 @
                         [ApiCall G (map_sum id ClientsReply (getClients w (trace s0) G))]\<rparr>"
  define M where "M = (\<lambda>b::client. (digits \<noteq> [] \<and>
                          (let own = filter isDigit
                                       (case primaryPhoneNumber b of None \<Rightarrow> [] | Some q \<Rightarrow> q)
                           in drop (length own - 10) own = drop (length digits - 10) digits)) \<or>
                         (\<exists>e a. client_email req = Some e \<and> e \<noteq> [] \<and>
                                emailAddress b = Some a \<and> toLowerCase a = toLowerCase e))"
  have G': "G = \<lparr>httpMethod = ''GET'', url = API_URL @ clientsEndpoint (locationOf req),
              authorization = ''Bearer '' @ tok, httpData = None\<rparr>"
    by (simp add: G_def loc uc)
  note rd = markLate2_reads_clients [OF n assms(5) G' s1_def]
  have Mm: "matchesClient ?np ?ne b \<longleftrightarrow> M b" for b
    unfolding M_def by (rule matchesClient_digits [OF assms(4)])
  have C1: "\<exists>rest. trace (snd (markLate2 w req s)) =
                 trace s0 @ ApiCall G (map_sum id ClientsReply (getClients w (trace s0) G)) # rest"
    by (rule rd(2))
  have C2: "let S = \<lparr>httpMethod = ''GET'',
                            url = ''https://na1pub.meevo.com/publicapi/v1/book/client/''
                                    @ clientId c @ ''/services?TenantId=200507&LocationId='' @ loc,
                            authorization = ''Bearer '' @ tok', httpData = None\<rparr>
                   in \<exists>rest. trace (snd (markLate2 w req s)) =
                        trace s2 @
                        ApiCall S (map_sum id ServicesReply (getServices w (trace s2) S)) # rest"
    if h: "getClients w (trace s0) G = Inr (Some (pre @ c # post))"
          "\<forall>b\<in>set pre. \<not> M b" "M c" "clientId c \<noteq> []" "getToken w s1 = (Inr tok', s2)"
    for pre c post tok' s2
  proof -
    from rd(1) h(1) have call: "callMeevoAPI w (getClients w) ClientsReply
           (clientsEndpoint (locationOf req)) ''GET'' None s = (Inr (Some (pre @ c # post)), s1)"
      by simp
    from h(2,3) have f: "find (matchesClient ?np ?ne) (pre @ c # post) = Some c"
      by (intro find_first) (simp_all add: Mm)
    from markLate2_lists_match [OF n call f h(4) h(5) refl, unfolded loc us]
    show ?thesis by (simp only: Let_def)
  qed
  have C3: "markLate2 w req s =
                    (\<lparr>success = False, marked_late = None, marked_id = None,
                      appointment_time = None, message = None,
                      error = Some ''No client found with that phone number or email''\<rparr>, s1)"
    if h: "getClients w (trace s0) G = Inr (Some cs)" "\<forall>b\<in>set cs. \<not> M b" for cs
  proof -
    from rd(1) h(1) have call: "callMeevoAPI w (getClients w) ClientsReply
           (clientsEndpoint (locationOf req)) ''GET'' None s = (Inr (Some cs), s1)"
      by simp
    from h(2) have f: "find (matchesClient ?np ?ne) cs = None"
      by (intro find_none) (simp add: Mm)
    from markLate2_no_match [OF n call f] show ?thesis .
  qed
  from C1 C2 C3 have C: "(\<exists>rest. trace (snd (markLate2 w req s)) =
                 trace s0 @ ApiCall G (map_sum id ClientsReply (getClients w (trace s0) G)) # rest)
            \<and> (\<forall>pre c post tok' s2.
                  getClients w (trace s0) G = Inr (Some (pre @ c # post)) \<and>
                  (\<forall>b\<in>set pre. \<not> M b) \<and> M c \<and> clientId c \<noteq> [] \<and>
                  getToken w s1 = (Inr tok', s2) \<longrightarrow>
                  (let S = \<lparr>httpMethod = ''GET'',
                            url = ''https://na1pub.meevo.com/publicapi/v1/book/client/''
                                    @ clientId c @ ''/services?TenantId=200507&LocationId='' @ loc,
                            authorization = ''Bearer '' @ tok', httpData = None\<rparr>
                   in \<exists>rest. trace (snd (markLate2 w req s)) =
                        trace s2 @
                        ApiCall S (map_sum id ServicesReply (getServices w (trace s2) S)) # rest))
            \<and> (\<forall>cs. getClients w (trace s0) G = Inr (Some cs) \<and> (\<forall>b\<in>set cs. \<not> M b) \<longrightarrow>
                  markLate2 w req s =
                    (\<lparr>success = False, marked_late = None, marked_id = None,
                      appointment_time = None, message = None,
                      error = Some ''No client found with that phone number or email''\<rparr>, s1))"
    by (intro conjI allI impI; (elim conjE)?) blast+
  show ?thesis
    unfolding Let_def
    using A [unfolded Let_def] B [unfolded Let_def] C [unfolded M_def s1_def G_def Let_def]
    by - (elim conjE, intro conjI, assumption+)
qed


text \<open>Scenario A of the specification, up to the lookup.\<close>

lemma run_phone_facts:
  "appointment_service_id phoneRequest = None"
  "client_phone phoneRequest = Some ''+1 (555) 123-4567''"
  "''201664'' = (case location_id phoneRequest of None \<Rightarrow> ''201664''
                | Some l \<Rightarrow> if l = [] then ''201664'' else l)"
  "''15551234567'' = (case client_phone phoneRequest of None \<Rightarrow> []
                      | Some p \<Rightarrow> filter isDigit p)"
  "getToken salonWorld emptyState =
     (Inr ''tok'',
      \<lparr>token = Some ''tok'', tokenExpiry = Some 3600000,
       trace = [TokenPost (Inr \<lparr>access_token = ''tok'', expires_in = 3600\<rparr>)],
       ticks = 1\<rparr>)"
  by code_simp+

theorem lookup_filter_witness:
  "client_phone phoneRequest = Some ''+1 (555) 123-4567'' \<and>
   (\<exists>rest. trace (snd (markLate salonWorld phoneRequest emptyState)) =
      [TokenPost (Inr \<lparr>access_token = ''tok'', expires_in = 3600\<rparr>),
       ApiCall
         \<lparr>httpMethod = ''POST'',
          url = ''https://na1pub.meevo.com/publicapi/v1/clients/lookup?TenantId=200507&LocationId=201664'',
          authorization = ''Bearer tok'',
          httpData = Some (LookupData
            \<lparr>PhoneNumbers = Some [''5551234567''], EmailIds = None\<rparr>)\<rparr>
         (Inr (ClientsReply (Some [anna])))] @ rest)"
proof -
  note f = run_phone_facts
  have h1: "appointment_service_id phoneRequest = None \<or>
            appointment_service_id phoneRequest = Some []"
    using f(1) by (rule disjI1)
  have h2: "(\<exists>p. client_phone phoneRequest = Some p \<and> p \<noteq> []) \<or>
            (\<exists>e. client_email phoneRequest = Some e \<and> e \<noteq> [])"
    using f(2) by simp
  have ne: "''15551234567'' \<noteq> []" by simp
  note t = lookup_filter [OF h1 h2 f(3) f(4) f(5), THEN conjunct1, THEN mp, OF ne,
                          unfolded Let_def]
  have p: "postLookup salonWorld tr c = Inr (Some [anna])" for tr c
    by (simp add: salonWorld_def)
  from t have "\<exists>rest. trace (snd (markLate salonWorld phoneRequest emptyState)) =
      [TokenPost (Inr \<lparr>access_token = ''tok'', expires_in = 3600\<rparr>),
       ApiCall
         \<lparr>httpMethod = ''POST'',
          url = ''https://na1pub.meevo.com/publicapi/v1/clients/lookup?TenantId=200507&LocationId=201664'',
          authorization = ''Bearer tok'',
          httpData = Some (LookupData
            \<lparr>PhoneNumbers = Some [''5551234567''], EmailIds = None\<rparr>)\<rparr>
         (Inr (ClientsReply (Some [anna])))] @ rest"
    by (simp add: p)
  with f(2) show ?thesis by (rule conjI)
qed

text \<open>
  C6 as stated fails twice. With the phone number \<open>n/a\<close> and an email address, both
  supplied, the current handler looks the client up by the email address. With a phone
  number that belongs to nobody and Anna's email address the earlier handler sends no
  filter, finds Anna by her email address and lists her appointments.
\<close>

theorem lookup_filter_counterexample:
  "appointment_service_id noDigitRequest = None \<and>
   client_phone noDigitRequest = Some ''n/a'' \<and>
   client_email noDigitRequest = Some ''Anna@Example.org'' \<and>
   take 1 (apiCalls (trace (snd (markLate salonWorld noDigitRequest emptyState)))) =
     [(\<lparr>httpMethod = ''POST'',
        url = ''https://na1pub.meevo.com/publicapi/v1/clients/lookup?TenantId=200507&LocationId=201664'',
        authorization = ''Bearer tok'',
        httpData = Some (LookupData
          \<lparr>PhoneNumbers = None, EmailIds = Some [''anna@example.org'']\<rparr>)\<rparr>,
       Inr (ClientsReply (Some [anna])))] \<and>
   appointment_service_id otherPhoneRequest = None \<and>
   client_phone otherPhoneRequest = Some ''555 000 0000'' \<and>
   client_email otherPhoneRequest = Some ''ANNA@example.org'' \<and>
   primaryPhoneNumber anna = Some ''(555) 123-4567'' \<and>
   emailAddress anna = Some ''Anna@Example.org'' \<and>
   take 2 (apiCalls (trace (snd (markLate2 salonWorld otherPhoneRequest emptyState)))) =
     [(\<lparr>httpMethod = ''GET'',
        url = ''https://na1pub.meevo.com/publicapi/v1/clients?TenantId=200507&LocationId=201664'',
        authorization = ''Bearer tok'', httpData = None\<rparr>,
       Inr (ClientsReply (Some [anna]))),
      (\<lparr>httpMethod = ''GET'',
        url = ''https://na1pub.meevo.com/publicapi/v1/book/client/C-1/services?TenantId=200507&LocationId=201664'',
        authorization = ''Bearer tok'', httpData = None\<rparr>,
       Inr (ServicesReply (Some salonApts)))]"
  by code_simp

end
